theory Spec2Isabelle
  imports Complex_Main "HOL-Library.Word" "HOL-Library.Sublist" "HOL-Library.Log_Nat"
begin

section \<open>Python values used by the detection service\<close>

text \<open>
  The service is Python. A \<open>float\<close> value is kept as the exact rational (\<open>rat\<close>) it
  stands for; NaN and infinities are not modelled, and the rounding error of binary
  floating point is modelled where a result of the code depends on it, which is in
  \<open>round(percentage, 1)\<close> below. Its \<open>str\<close> values are \<open>string\<close> (byte lists), its
  \<open>int\<close> values are \<open>int\<close>, a \<open>dict\<close> is an association list in insertion order, and
  every exception the modelled code can raise is a value of \<open>py_error\<close>.
\<close>

datatype py_error = CvError | ZeroDivisionError | ValueError | IndexError

text \<open>\<open>sep.join(xs)\<close>.\<close>

fun py_join :: "string \<Rightarrow> string list \<Rightarrow> string" where
  "py_join sep [] = []"
| "py_join sep [x] = x"
| "py_join sep (x # y # ys) = x @ sep @ py_join sep (y # ys)"

text \<open>Rounding to the nearest integer, an exact tie going to the even neighbour.\<close>

definition round_half_even :: "rat \<Rightarrow> int" where
  "round_half_even x =
     (let f = \<lfloor>x\<rfloor>; d = x - of_int f
      in if d < 1 / 2 then f
         else if 1 / 2 < d then f + 1
         else if even f then f else f + 1)"

text \<open>
  The IEEE 754 double nearest to a rational (53 significant bits, ties to even;
  underflow and overflow are out of reach of the values here). \<open>floor_log2 x\<close> is the
  \<open>e\<close> with \<open>2 ^ e \<le> x < 2 ^ (e + 1)\<close> for a positive \<open>x\<close>.
\<close>

definition pow2 :: "int \<Rightarrow> rat" where
  "pow2 e = (if 0 \<le> e then 2 ^ nat e else 1 / 2 ^ nat (- e))"

definition floor_log2 :: "rat \<Rightarrow> int" where
  "floor_log2 x =
     (case quotient_of x of
        (a, b) \<Rightarrow> (let e0 = bitlen a - bitlen b in if pow2 e0 \<le> x then e0 else e0 - 1))"

definition double_of_pos :: "rat \<Rightarrow> rat" where
  "double_of_pos x =
     (let e = floor_log2 x - 52 in of_int (round_half_even (x / pow2 e)) * pow2 e)"

definition double_of :: "rat \<Rightarrow> rat" where
  "double_of x =
     (if x = 0 then 0 else if x < 0 then - double_of_pos (- x) else double_of_pos x)"

text \<open>
  \<open>round(percentage, 1)\<close> for a percentage \<open>x = (c / t) * 100\<close>. Python rounds the double
  that the code holds for \<open>x\<close>, which is \<open>double_of (double_of (x / 100) * 100)\<close>: the
  division and the multiplication are each rounded to a double. That double is within a
  few parts in \<open>2 ^ 53\<close> of \<open>x\<close>, so it rounds to the tenth nearest to \<open>x\<close> whenever \<open>x\<close> is
  not exactly midway between two tenths. When \<open>x\<close> is midway, the side on which the
  double lies decides (for 23 of 80 pixels the double of 28.75 is 28.749999999999996 and
  the code stores 28.7; for 201 of 2000 the double of 10.05 lies above and the code
  stores 10.1), and a double that is itself the midpoint goes to the even tenth (6.25
  gives 6.2). The result is kept as the exact tenth.
\<close>

definition nearest_tenth :: "rat \<Rightarrow> int" where
  "nearest_tenth x =
     (let k = \<lfloor>x * 10\<rfloor>;
          d = x * 10 - of_int k;
          xd = double_of (double_of (x / 100) * 100)
      in if d < 1 / 2 then k
         else if 1 / 2 < d then k + 1
         else if xd < x then k
         else if x < xd then k + 1
         else if even k then k else k + 1)"

definition py_round1 :: "rat \<Rightarrow> rat" where
  "py_round1 x = of_int (nearest_tenth x) / 10"

text \<open>\<open>d[k] = v\<close> on a dict kept in insertion order.\<close>

fun dict_set :: "('k \<times> 'v) list \<Rightarrow> 'k \<Rightarrow> 'v \<Rightarrow> ('k \<times> 'v) list" where
  "dict_set [] k v = [(k, v)]"
| "dict_set ((k', v') # d) k v = (if k' = k then (k, v) # d else (k', v') # dict_set d k v)"

section \<open>color_analyzer.py\<close>

datatype ColorBlindnessType =
  NORMAL | PROTANOPIA | PROTANOMALY | DEUTERANOPIA | DEUTERANOMALY
  | TRITANOPIA | TRITANOMALY | ACHROMATOPSIA

text \<open>A pixel is three \<open>uint8\<close> channels: B, G, R before conversion, H, S, V after.\<close>

type_synonym pixel = "8 word \<times> 8 word \<times> 8 word"

text \<open>
  A region of interest is the list of its pixels in row-major order, so that
  \<open>roi.size == 0\<close> is \<open>roi = []\<close> and \<open>roi.shape[0] * roi.shape[1]\<close> is \<open>length roi\<close>.
\<close>

type_synonym region = "pixel list"

type_synonym breakdown = "(string \<times> rat) list"

definition COLOR_RANGES :: "(string \<times> pixel \<times> pixel) list" where
  "COLOR_RANGES =
    [(''red_low'', (0, 100, 100), (10, 255, 255)),
     (''red_high'', (160, 100, 100), (180, 255, 255)),
     (''orange'', (10, 100, 100), (25, 255, 255)),
     (''yellow'', (25, 100, 100), (35, 255, 255)),
     (''green'', (35, 100, 100), (85, 255, 255)),
     (''cyan'', (85, 100, 100), (100, 255, 255)),
     (''blue'', (100, 100, 100), (130, 255, 255)),
     (''purple'', (130, 100, 100), (160, 255, 255)),
     (''white'', (0, 0, 200), (180, 30, 255)),
     (''black'', (0, 0, 0), (180, 255, 50))]"

fun PROBLEMATIC_COLORS :: "ColorBlindnessType \<Rightarrow> string list" where
  "PROBLEMATIC_COLORS NORMAL = []"
| "PROBLEMATIC_COLORS PROTANOPIA = [''red_low'', ''red_high'', ''orange'', ''green'']"
| "PROBLEMATIC_COLORS PROTANOMALY = [''red_low'', ''red_high'', ''orange'']"
| "PROBLEMATIC_COLORS DEUTERANOPIA = [''red_low'', ''red_high'', ''green'', ''yellow'']"
| "PROBLEMATIC_COLORS DEUTERANOMALY = [''green'', ''yellow'']"
| "PROBLEMATIC_COLORS TRITANOPIA = [''blue'', ''yellow'', ''cyan'']"
| "PROBLEMATIC_COLORS TRITANOMALY = [''blue'', ''yellow'']"
| "PROBLEMATIC_COLORS ACHROMATOPSIA = map fst COLOR_RANGES"

definition COLOR_DISPLAY_NAMES :: "(string \<times> string) list" where
  "COLOR_DISPLAY_NAMES =
    [(''red_low'', ''red''),
     (''red_high'', ''red''),
     (''orange'', ''orange''),
     (''yellow'', ''yellow''),
     (''green'', ''green''),
     (''cyan'', ''cyan''),
     (''blue'', ''blue''),
     (''purple'', ''purple''),
     (''white'', ''white''),
     (''black'', ''black'')]"

text \<open>\<open>COLOR_DISPLAY_NAMES.get(color_name, color_name)\<close>.\<close>

definition display_name_of :: "string \<Rightarrow> string" where
  "display_name_of color_name =
     (case map_of COLOR_DISPLAY_NAMES color_name of None \<Rightarrow> color_name | Some d \<Rightarrow> d)"

subsection \<open>The OpenCV primitives, at their interface\<close>

text \<open>
  \<open>cv2.cvtColor(roi, cv2.COLOR_BGR2HSV)\<close> converts pixel by pixel and raises on an
  empty image. The per-pixel conversion \<open>cvt\<close> is OpenCV's and is a parameter.
\<close>

definition cvtColor :: "(pixel \<Rightarrow> pixel) \<Rightarrow> region \<Rightarrow> py_error + region" where
  "cvtColor cvt roi = (if roi = [] then Inl CvError else Inr (map cvt roi))"

text \<open>\<open>cv2.inRange\<close>: 255 where every channel lies between the bounds, bounds included.\<close>

fun in_bounds :: "pixel \<Rightarrow> pixel \<Rightarrow> pixel \<Rightarrow> bool" where
  "in_bounds (h, s, v) (h0, s0, v0) (h1, s1, v1) =
     (h0 \<le> h \<and> h \<le> h1 \<and> s0 \<le> s \<and> s \<le> s1 \<and> v0 \<le> v \<and> v \<le> v1)"

definition inRange :: "region \<Rightarrow> pixel \<Rightarrow> pixel \<Rightarrow> 8 word list" where
  "inRange hsv lower upper = map (\<lambda>p. if in_bounds p lower upper then 255 else 0) hsv"

definition countNonZero :: "8 word list \<Rightarrow> nat" where
  "countNonZero msk = length (filter (\<lambda>m. m \<noteq> 0) msk)"

subsection \<open>ColorAnalyzer.detect_colors\<close>

text \<open>
  \<open>(color_pixels / total_pixels) * 100\<close>; the division raises on a zero divisor. The
  value is the exact share. The code holds the double of it,
  \<open>double_of (double_of (color_pixels / total_pixels) * 100)\<close>, which for a region that
  fits in memory lies on the same side of 5 as the share (the double of the share 5 is
  5.0 itself) and whose last bits matter to \<open>round\<close> alone; \<open>py_round1\<close> accounts for
  them.
\<close>

definition percentage_of :: "nat \<Rightarrow> nat \<Rightarrow> py_error + rat" where
  "percentage_of color_pixels total_pixels =
     (if total_pixels = 0 then Inl ZeroDivisionError
      else Inr (of_nat color_pixels / of_nat total_pixels * 100))"

text \<open>The loop over \<open>COLOR_RANGES.items()\<close>, with \<open>color_percentages\<close> as accumulator.\<close>

fun detect_colors_loop ::
  "region \<Rightarrow> nat \<Rightarrow> (string \<times> pixel \<times> pixel) list \<Rightarrow> breakdown \<Rightarrow> py_error + breakdown" where
  "detect_colors_loop hsv total_pixels [] color_percentages = Inr color_percentages"
| "detect_colors_loop hsv total_pixels ((color_name, lower, upper) # rest) color_percentages =
     (let msk = inRange hsv lower upper;
          color_pixels = countNonZero msk
      in case percentage_of color_pixels total_pixels of
           Inl e \<Rightarrow> Inl e
         | Inr percentage \<Rightarrow>
             detect_colors_loop hsv total_pixels rest
               (if 5 < percentage
                then dict_set color_percentages color_name (py_round1 percentage)
                else color_percentages))"

definition detect_colors :: "(pixel \<Rightarrow> pixel) \<Rightarrow> region \<Rightarrow> py_error + breakdown" where
  "detect_colors cvt roi =
     (if roi = [] then Inr []
      else case cvtColor cvt roi of
             Inl e \<Rightarrow> Inl e
           | Inr hsv \<Rightarrow> detect_colors_loop hsv (length roi) COLOR_RANGES [])"

subsection \<open>ColorAnalyzer.get_dominant_colors\<close>

text \<open>
  \<open>sorted(items, key=lambda x: x[1], reverse=True)\<close> is stable: entries with equal
  percentage keep their order. That is the stable ascending sort on the negated key.
\<close>

definition sorted_colors_of :: "breakdown \<Rightarrow> breakdown" where
  "sorted_colors_of color_percentages = sort_key (\<lambda>x. - snd x) color_percentages"

text \<open>The loop that collects display names; the length test comes after the append.\<close>

fun dominant_loop :: "int \<Rightarrow> breakdown \<Rightarrow> string set \<Rightarrow> string list \<Rightarrow> string list" where
  "dominant_loop top_n [] seen dominant = dominant"
| "dominant_loop top_n ((color_name, _) # rest) seen dominant =
     (let display_name = display_name_of color_name;
          seen' = (if display_name \<notin> seen then insert display_name seen else seen);
          dominant' = (if display_name \<notin> seen then dominant @ [display_name] else dominant)
      in if top_n \<le> int (length dominant') then dominant'
         else dominant_loop top_n rest seen' dominant')"

definition get_dominant_colors :: "(pixel \<Rightarrow> pixel) \<Rightarrow> region \<Rightarrow> int \<Rightarrow> py_error + string list" where
  "get_dominant_colors cvt roi top_n =
     (case detect_colors cvt roi of
        Inl e \<Rightarrow> Inl e
      | Inr color_percentages \<Rightarrow>
          Inr (dominant_loop top_n (sorted_colors_of color_percentages) {} []))"

subsection \<open>ColorAnalyzer.is_problematic_for_user\<close>

fun found_problematic_loop ::
  "string list \<Rightarrow> breakdown \<Rightarrow> (string \<times> rat) list \<Rightarrow> (string \<times> rat) list" where
  "found_problematic_loop problematic [] found_problematic = found_problematic"
| "found_problematic_loop problematic ((color_name, percentage) # rest) found_problematic =
     found_problematic_loop problematic rest
       (if color_name \<in> set problematic \<and> 10 < percentage
        then found_problematic @ [(display_name_of color_name, percentage)]
        else found_problematic)"

definition is_problematic_for_user :: "breakdown \<Rightarrow> ColorBlindnessType \<Rightarrow> bool \<times> string option" where
  "is_problematic_for_user detected_colors colorblindness_type =
     (let problematic = PROBLEMATIC_COLORS colorblindness_type
      in if problematic = [] then (False, None)
         else let found_problematic = found_problematic_loop problematic detected_colors []
              in if found_problematic \<noteq> []
                 then let colors_str = py_join '', '' (map fst (take 2 found_problematic));
                          warning = ''Contains '' @ colors_str @ '' - may be difficult to see''
                      in (True, Some warning)
                 else (False, None))"

subsection \<open>ColorAnalyzer.analyze_region\<close>

text \<open>
  The returned dict always has the keys \<open>dominant_colors\<close>, \<open>is_problematic\<close> and
  \<open>warning\<close> (the record fields carry the prefix \<open>info_\<close>); \<open>color_breakdown\<close> is
  absent on the empty-region path.
\<close>

record color_info =
  info_dominant_colors :: "string list"
  info_is_problematic :: bool
  info_warning :: "string option"
  info_color_breakdown :: "breakdown option"

definition analyze_region :: "(pixel \<Rightarrow> pixel) \<Rightarrow> region \<Rightarrow> ColorBlindnessType \<Rightarrow> py_error + color_info" where
  "analyze_region cvt roi colorblindness_type =
     (if roi = []
      then Inr \<lparr>info_dominant_colors = [], info_is_problematic = False,
                info_warning = None, info_color_breakdown = None\<rparr>
      else case detect_colors cvt roi of
             Inl e \<Rightarrow> Inl e
           | Inr detected_colors \<Rightarrow>
               (case get_dominant_colors cvt roi 3 of
                  Inl e \<Rightarrow> Inl e
                | Inr dominant \<Rightarrow>
                    (case is_problematic_for_user detected_colors colorblindness_type of
                       (is_problematic, warning) \<Rightarrow>
                         Inr \<lparr>info_dominant_colors = dominant,
                              info_is_problematic = is_problematic,
                              info_warning = warning,
                              info_color_breakdown = Some detected_colors\<rparr>)))"

section \<open>detector.py\<close>

definition COCO_CLASSES :: "string list" where
  "COCO_CLASSES =
    [''person'', ''bicycle'', ''car'', ''motorcycle'', ''airplane'', ''bus'', ''train'',
     ''truck'', ''boat'', ''traffic light'', ''fire hydrant'', ''stop sign'',
     ''parking meter'', ''bench'', ''bird'', ''cat'', ''dog'', ''horse'', ''sheep'',
     ''cow'', ''elephant'', ''bear'', ''zebra'', ''giraffe'', ''backpack'', ''umbrella'',
     ''handbag'', ''tie'', ''suitcase'', ''frisbee'', ''skis'', ''snowboard'',
     ''sports ball'', ''kite'', ''baseball bat'', ''baseball glove'', ''skateboard'',
     ''surfboard'', ''tennis racket'', ''bottle'', ''wine glass'', ''cup'', ''fork'',
     ''knife'', ''spoon'', ''bowl'', ''banana'', ''apple'', ''sandwich'', ''orange'',
     ''broccoli'', ''carrot'', ''hot dog'', ''pizza'', ''donut'', ''cake'', ''chair'',
     ''couch'', ''potted plant'', ''bed'', ''dining table'', ''toilet'', ''tv'',
     ''laptop'', ''mouse'', ''remote'', ''keyboard'', ''cell phone'', ''microwave'',
     ''oven'', ''toaster'', ''sink'', ''refrigerator'', ''book'', ''clock'', ''vase'',
     ''scissors'', ''teddy bear'', ''hair drier'', ''toothbrush'']"

text \<open>\<open>RELEVANT_OBJECTS\<close>: label, then \<open>priority\<close> and \<open>color_relevant\<close>.\<close>

definition RELEVANT_OBJECTS :: "(string \<times> string \<times> bool) list" where
  "RELEVANT_OBJECTS =
    [(''traffic light'', ''critical'', True),
     (''stop sign'', ''critical'', True),
     (''car'', ''high'', True),
     (''truck'', ''high'', True),
     (''bus'', ''high'', True),
     (''motorcycle'', ''high'', True),
     (''bicycle'', ''medium'', False),
     (''person'', ''medium'', False),
     (''fire hydrant'', ''low'', True),
     (''dog'', ''medium'', False),
     (''cat'', ''low'', False),
     (''bird'', ''low'', False),
     (''bench'', ''low'', False),
     (''umbrella'', ''low'', True),
     (''backpack'', ''low'', False),
     (''handbag'', ''low'', False),
     (''suitcase'', ''low'', False),
     (''bottle'', ''low'', False),
     (''chair'', ''low'', False),
     (''couch'', ''low'', False),
     (''potted plant'', ''low'', True),
     (''tv'', ''low'', False),
     (''laptop'', ''low'', False),
     (''cell phone'', ''low'', False),
     (''boat'', ''low'', False),
     (''train'', ''medium'', True),
     (''airplane'', ''low'', False)]"

text \<open>\<open>RELEVANT_OBJECTS.get(label, {"priority": "low", "color_relevant": False})\<close>.\<close>

definition RELEVANT_OBJECTS_get :: "string \<Rightarrow> string \<times> bool" where
  "RELEVANT_OBJECTS_get label =
     (case map_of RELEVANT_OBJECTS label of None \<Rightarrow> (''low'', False) | Some obj_info \<Rightarrow> obj_info)"

text \<open>\<open>priority_order.get(x["priority"], 4)\<close>.\<close>

definition priority_order :: "string \<Rightarrow> nat" where
  "priority_order p =
     (case map_of [(''critical'', 0), (''high'', 1), (''medium'', 2), (''low'', 3)] p of
        None \<Rightarrow> 4 | Some r \<Rightarrow> r)"

type_synonym box = "int \<times> int \<times> int \<times> int"

text \<open>The dicts that \<open>detect\<close> returns; the fields carry the prefix \<open>det_\<close>.\<close>

record detection =
  det_label :: string
  det_confidence :: rat
  det_bbox :: box
  det_priority :: string
  det_color_relevant :: bool

text \<open>\<open>int(x)\<close> on a float truncates towards zero.\<close>

definition py_int :: "rat \<Rightarrow> int" where
  "py_int x = (if 0 \<le> x then \<lfloor>x\<rfloor> else \<lceil>x\<rceil>)"

text \<open>
  \<open>np.argmax\<close>: the index of the first greatest entry; it raises \<open>ValueError\<close> on an
  empty sequence.
\<close>

fun argmax_loop :: "rat list \<Rightarrow> nat \<Rightarrow> nat \<Rightarrow> rat \<Rightarrow> nat" where
  "argmax_loop [] i best_i best = best_i"
| "argmax_loop (x # xs) i best_i best =
     (if best < x then argmax_loop xs (Suc i) i x else argmax_loop xs (Suc i) best_i best)"

definition argmax :: "rat list \<Rightarrow> py_error + nat" where
  "argmax scores =
     (case scores of [] \<Rightarrow> Inl ValueError | x # xs \<Rightarrow> Inr (argmax_loop xs 1 0 x))"

text \<open>
  The loop over the anchor rows of every output layer (\<open>detect\<close>, lines 171 to 190).
  After \<open>argmax\<close> has succeeded the row has at least six entries, so the reads of
  \<open>detection[0]\<close> to \<open>detection[3]\<close> and of \<open>scores[class_id]\<close> are in range.
\<close>

fun anchors_loop ::
  "int \<Rightarrow> int \<Rightarrow> rat \<Rightarrow> rat list list \<Rightarrow> box list \<Rightarrow> rat list \<Rightarrow> nat list
     \<Rightarrow> py_error + (box list \<times> rat list \<times> nat list)" where
  "anchors_loop width height confidence_threshold [] boxes confidences class_ids =
     Inr (boxes, confidences, class_ids)"
| "anchors_loop width height confidence_threshold (detection # rest) boxes confidences class_ids =
     (let scores = drop 5 detection
      in case argmax scores of
           Inl e \<Rightarrow> Inl e
         | Inr class_id \<Rightarrow>
             (let confidence = scores ! class_id
              in if confidence_threshold < confidence
                 then let center_x = py_int (detection ! 0 * of_int width);
                          center_y = py_int (detection ! 1 * of_int height);
                          w = py_int (detection ! 2 * of_int width);
                          h = py_int (detection ! 3 * of_int height);
                          x = py_int (of_int center_x - of_int w / 2);
                          y = py_int (of_int center_y - of_int h / 2)
                      in anchors_loop width height confidence_threshold rest
                           (boxes @ [(x, y, w, h)]) (confidences @ [confidence])
                           (class_ids @ [class_id])
                 else anchors_loop width height confidence_threshold rest
                        boxes confidences class_ids))"

text \<open>
  The loop over the indices kept by \<open>cv2.dnn.NMSBoxes\<close> (lines 196 to 217); each entry
  of \<open>indices\<close> is given as the number \<open>idx\<close> that the code reads from it. A list read
  out of range raises \<open>IndexError\<close>.
\<close>

fun detections_loop ::
  "int \<Rightarrow> int \<Rightarrow> box list \<Rightarrow> rat list \<Rightarrow> nat list \<Rightarrow> nat list \<Rightarrow> detection list
     \<Rightarrow> py_error + detection list" where
  "detections_loop width height boxes confidences class_ids [] detections = Inr detections"
| "detections_loop width height boxes confidences class_ids (idx # rest) detections =
     (if idx < length class_ids \<and> class_ids ! idx < length COCO_CLASSES
         \<and> idx < length boxes \<and> idx < length confidences
      then let label = COCO_CLASSES ! (class_ids ! idx);
               (x0, y0, w0, h0) = boxes ! idx;
               x = max 0 x0;
               y = max 0 y0;
               w = min w0 (width - x);
               h = min h0 (height - y);
               obj_info = RELEVANT_OBJECTS_get label
           in detections_loop width height boxes confidences class_ids rest
                (detections @
                 [\<lparr>det_label = label, det_confidence = confidences ! idx,
                   det_bbox = (x, y, w, h), det_priority = fst obj_info,
                   det_color_relevant = snd obj_info\<rparr>])
      else Inl IndexError)"

text \<open>
  \<open>ObjectDetector.detect\<close>, from the output of the forward pass on. The network's
  forward pass gives \<open>outputs\<close> (one array of anchor rows per output layer) and
  \<open>cv2.dnn.NMSBoxes\<close> is the parameter \<open>nms\<close>, which returns the kept indices; both are
  OpenCV's. \<open>loaded\<close> is \<open>self.is_loaded()\<close>; \<open>width\<close> and \<open>height\<close> are the frame's.
\<close>

type_synonym nms_fun = "box list \<Rightarrow> rat list \<Rightarrow> rat \<Rightarrow> rat \<Rightarrow> nat list"

definition detect ::
  "bool \<Rightarrow> nms_fun \<Rightarrow> int \<Rightarrow> int \<Rightarrow> rat list list list \<Rightarrow> rat \<Rightarrow> py_error + detection list" where
  "detect loaded nms width height outputs confidence_threshold =
     (if \<not> loaded then Inr []
      else case anchors_loop width height confidence_threshold (concat outputs) [] [] [] of
             Inl e \<Rightarrow> Inl e
           | Inr (boxes, confidences, class_ids) \<Rightarrow>
               (let indices = nms boxes confidences confidence_threshold (2 / 5)
                in case detections_loop width height boxes confidences class_ids indices [] of
                     Inl e \<Rightarrow> Inl e
                   | Inr detections \<Rightarrow>
                       Inr (sort_key (\<lambda>d. priority_order (det_priority d)) detections)))"

section \<open>main.py\<close>

text \<open>\<open>str.lower()\<close> on ASCII text.\<close>

definition lower_char :: "char \<Rightarrow> char" where
  "lower_char c =
     (let n = (of_char c :: nat) in if 65 \<le> n \<and> n \<le> 90 then char_of (n + 32) else c)"

definition py_lower :: "string \<Rightarrow> string" where
  "py_lower s = map lower_char s"

text \<open>\<open>xs[a:b]\<close>: a negative bound counts from the end, and both bounds are clamped.\<close>

definition slice_index :: "nat \<Rightarrow> int \<Rightarrow> nat" where
  "slice_index n i = (if i < 0 then nat (max 0 (int n + i)) else min n (nat i))"

definition py_slice :: "'a list \<Rightarrow> int \<Rightarrow> int \<Rightarrow> 'a list" where
  "py_slice xs a b =
     (let lo = slice_index (length xs) a; hi = slice_index (length xs) b
      in take (hi - lo) (drop lo xs))"

text \<open>A frame is the list of its pixel rows; \<open>frame[y:y+h, x:x+w]\<close> read row by row.\<close>

type_synonym frame = "pixel list list"

definition crop :: "frame \<Rightarrow> int \<Rightarrow> int \<Rightarrow> int \<Rightarrow> int \<Rightarrow> region" where
  "crop frm x y w h = concat (map (\<lambda>row. py_slice row x (x + w)) (py_slice frm y (y + h)))"

definition frame_height_of :: "frame \<Rightarrow> nat" where
  "frame_height_of frm = length frm"

definition frame_width_of :: "frame \<Rightarrow> nat" where
  "frame_width_of frm = (case frm of [] \<Rightarrow> 0 | row # _ \<Rightarrow> length row)"

text \<open>
  \<open>ColorBlindnessType(value)\<close>: the member with that value, \<open>ValueError\<close> when there is
  none.
\<close>

definition ColorBlindnessType_values :: "(string \<times> ColorBlindnessType) list" where
  "ColorBlindnessType_values =
    [(''normal'', NORMAL),
     (''protanopia'', PROTANOPIA),
     (''protanomaly'', PROTANOMALY),
     (''deuteranopia'', DEUTERANOPIA),
     (''deuteranomaly'', DEUTERANOMALY),
     (''tritanopia'', TRITANOPIA),
     (''tritanomaly'', TRITANOMALY),
     (''achromatopsia'', ACHROMATOPSIA)]"

definition ColorBlindnessType_of_value :: "string \<Rightarrow> py_error + ColorBlindnessType" where
  "ColorBlindnessType_of_value v =
     (case map_of ColorBlindnessType_values v of None \<Rightarrow> Inl ValueError | Some t \<Rightarrow> Inr t)"

text \<open>The \<open>try\<close>/\<open>except ValueError\<close> around the parse (lines 146 to 150).\<close>

definition parse_cb_type :: "string \<Rightarrow> py_error + ColorBlindnessType" where
  "parse_cb_type colorblindness_type =
     (case ColorBlindnessType_of_value (py_lower colorblindness_type) of
        Inl e \<Rightarrow> (if e = ValueError then Inr NORMAL else Inl e)
      | Inr t \<Rightarrow> Inr t)"

subsection \<open>determine_priority\<close>

definition determine_priority :: "string \<Rightarrow> bool \<Rightarrow> string" where
  "determine_priority label is_problematic =
     (let critical_objects = [''traffic light'', ''stop sign'', ''fire'', ''emergency vehicle''];
          high_objects =
            [''brake light'', ''turn signal'', ''yield sign'', ''warning sign'', ''cone''];
          label_lower = py_lower label
      in if list_ex (\<lambda>obj. sublist obj label_lower) critical_objects
         then (if is_problematic then ''critical'' else ''high'')
         else if list_ex (\<lambda>obj. sublist obj label_lower) high_objects
         then (if is_problematic then ''high'' else ''normal'')
         else (if is_problematic then ''normal'' else ''low''))"

subsection \<open>detect_objects\<close>

text \<open>
  \<open>DetectedObject\<close> and \<open>DetectionResponse\<close>; the fields carry the prefixes \<open>obj_\<close> and
  \<open>resp_\<close>. The wall-clock field \<open>processing_time_ms\<close> is left out.
\<close>

record detected_object =
  obj_label :: string
  obj_confidence :: rat
  obj_bbox :: box
  obj_dominant_colors :: "string list"
  obj_is_problematic_color :: bool
  obj_color_warning :: "string option"
  obj_priority :: string

record detection_response =
  resp_success :: bool
  resp_objects :: "detected_object list"
  resp_frame_width :: nat
  resp_frame_height :: nat
  resp_alert_message :: "string option"

text \<open>
  \<open>f"{color_info.get('warning', 'color may be hard to see')}"\<close>: the key \<open>warning\<close> is
  in every dict that \<open>analyze_region\<close> returns, so \<open>get\<close> returns its value, and an
  f-string renders the value \<open>None\<close> as the text \<open>None\<close>.
\<close>

definition format_warning :: "string option \<Rightarrow> string" where
  "format_warning w = (case w of None \<Rightarrow> ''None'' | Some s \<Rightarrow> s)"

text \<open>The loop over the detections (lines 159 to 184), with both lists as accumulators.\<close>

fun objects_loop ::
  "(pixel \<Rightarrow> pixel) \<Rightarrow> frame \<Rightarrow> ColorBlindnessType \<Rightarrow> detection list
     \<Rightarrow> detected_object list \<Rightarrow> string list
     \<Rightarrow> py_error + (detected_object list \<times> string list)" where
  "objects_loop cvt frm cb_type [] detected_objects critical_alerts =
     Inr (detected_objects, critical_alerts)"
| "objects_loop cvt frm cb_type (det # rest) detected_objects critical_alerts =
     (case det_bbox det of
        (x, y, w, h) \<Rightarrow>
          (let roi = crop frm x y w h
           in case analyze_region cvt roi cb_type of
                Inl e \<Rightarrow> Inl e
              | Inr color_info \<Rightarrow>
                  (let priority = determine_priority (det_label det)
                                    (info_is_problematic color_info);
                       obj = \<lparr>obj_label = det_label det,
                              obj_confidence = det_confidence det,
                              obj_bbox = (x, y, w, h),
                              obj_dominant_colors = info_dominant_colors color_info,
                              obj_is_problematic_color = info_is_problematic color_info,
                              obj_color_warning = info_warning color_info,
                              obj_priority = priority\<rparr>
                   in objects_loop cvt frm cb_type rest (detected_objects @ [obj])
                        (if info_is_problematic color_info
                            \<and> priority \<in> set [''critical'', ''high'']
                         then critical_alerts @
                              [det_label det @ '': '' @ format_warning (info_warning color_info)]
                         else critical_alerts))))"

datatype http_error = HTTP_503 | HTTP_500 py_error

text \<open>
  \<open>detect_objects\<close>, from the decoded frame on. \<open>detector\<close> is \<open>None\<close> while the service
  is not initialised and otherwise holds \<open>is_loaded()\<close>; every exception inside the
  \<open>try\<close> becomes the status 500.
\<close>

definition detect_objects ::
  "(pixel \<Rightarrow> pixel) \<Rightarrow> nms_fun \<Rightarrow> bool option \<Rightarrow> rat list list list
     \<Rightarrow> frame \<Rightarrow> string \<Rightarrow> rat \<Rightarrow> http_error + detection_response" where
  "detect_objects cvt nms detector outputs frm colorblindness_type min_confidence =
     (case detector of
        None \<Rightarrow> Inl HTTP_503
      | Some loaded \<Rightarrow>
          (let frame_height = frame_height_of frm;
               frame_width = frame_width_of frm
           in case parse_cb_type colorblindness_type of
                Inl e \<Rightarrow> Inl (HTTP_500 e)
              | Inr cb_type \<Rightarrow>
                  (case detect loaded nms (int frame_width) (int frame_height) outputs
                          min_confidence of
                     Inl e \<Rightarrow> Inl (HTTP_500 e)
                   | Inr detections \<Rightarrow>
                       (case objects_loop cvt frm cb_type detections [] [] of
                          Inl e \<Rightarrow> Inl (HTTP_500 e)
                        | Inr (detected_objects, critical_alerts) \<Rightarrow>
                            (let alert_message =
                                   (if critical_alerts \<noteq> []
                                    then Some (py_join ''; '' (take 3 critical_alerts))
                                    else None)
                             in Inr \<lparr>resp_success = True,
                                     resp_objects = detected_objects,
                                     resp_frame_width = frame_width,
                                     resp_frame_height = frame_height,
                                     resp_alert_message = alert_message\<rparr>)))))"

section \<open>Closed forms of the loops\<close>

text \<open>
  The share of a region's pixels inside one bucket, and the breakdown that the loop of
  \<open>detect_colors\<close> builds, written without the loop. Lemma \<open>detect_colors_closed\<close>
  shows that \<open>detect_colors\<close> computes exactly this.
\<close>

definition bucket_percentage :: "region \<Rightarrow> pixel \<Rightarrow> pixel \<Rightarrow> rat" where
  "bucket_percentage hsv lower upper =
     of_nat (length (filter (\<lambda>p. in_bounds p lower upper) hsv)) / of_nat (length hsv) * 100"

definition retained_buckets :: "region \<Rightarrow> (string \<times> pixel \<times> pixel) list \<Rightarrow> breakdown" where
  "retained_buckets hsv ranges =
     map (\<lambda>(color_name, lower, upper).
            (color_name, py_round1 (bucket_percentage hsv lower upper)))
       (filter (\<lambda>(color_name, lower, upper). 5 < bucket_percentage hsv lower upper) ranges)"

text \<open>
  What \<open>analyze_region\<close> returns, what the loop of \<open>detect_objects\<close> makes of one
  detection, and the test and the text of an alert entry, written without the error
  plumbing. The lemmas \<open>analyze_region_closed\<close> and \<open>objects_loop_closed\<close> show that the
  code computes exactly these.
\<close>

definition region_info :: "(pixel \<Rightarrow> pixel) \<Rightarrow> region \<Rightarrow> ColorBlindnessType \<Rightarrow> color_info" where
  "region_info cvt roi colorblindness_type =
     (if roi = []
      then \<lparr>info_dominant_colors = [], info_is_problematic = False,
            info_warning = None, info_color_breakdown = None\<rparr>
      else let detected_colors = retained_buckets (map cvt roi) COLOR_RANGES
           in \<lparr>info_dominant_colors =
                  dominant_loop 3 (sorted_colors_of detected_colors) {} [],
                info_is_problematic =
                  fst (is_problematic_for_user detected_colors colorblindness_type),
                info_warning =
                  snd (is_problematic_for_user detected_colors colorblindness_type),
                info_color_breakdown = Some detected_colors\<rparr>)"

definition analyzed_object ::
  "(pixel \<Rightarrow> pixel) \<Rightarrow> frame \<Rightarrow> ColorBlindnessType \<Rightarrow> detection \<Rightarrow> detected_object" where
  "analyzed_object cvt frm cb_type det =
     (case det_bbox det of
        (x, y, w, h) \<Rightarrow>
          (let color_info = region_info cvt (crop frm x y w h) cb_type
           in \<lparr>obj_label = det_label det,
                obj_confidence = det_confidence det,
                obj_bbox = (x, y, w, h),
                obj_dominant_colors = info_dominant_colors color_info,
                obj_is_problematic_color = info_is_problematic color_info,
                obj_color_warning = info_warning color_info,
                obj_priority = determine_priority (det_label det)
                                 (info_is_problematic color_info)\<rparr>))"

definition raises_alert :: "detected_object \<Rightarrow> bool" where
  "raises_alert obj =
     (obj_is_problematic_color obj \<and> obj_priority obj \<in> set [''critical'', ''high''])"

definition alert_entry :: "detected_object \<Rightarrow> string" where
  "alert_entry obj = obj_label obj @ '': '' @ format_warning (obj_color_warning obj)"

text \<open>
  The names of a list in the order of their first occurrence; lemma
  \<open>dominant_loop_closed\<close> shows that the loop of \<open>get_dominant_colors\<close> computes a prefix
  of it.
\<close>

fun first_occurrences :: "'a list \<Rightarrow> 'a list" where
  "first_occurrences [] = []"
| "first_occurrences (x # xs) = x # first_occurrences (filter (\<lambda>y. y \<noteq> x) xs)"

section \<open>Properties of the colour analysis\<close>

subsection \<open>Rounding\<close>

lemma nearest_tenth_near: "\<bar>of_int (nearest_tenth x) - x * 10\<bar> \<le> 1 / 2"
proof -
  have "of_int \<lfloor>x * 10\<rfloor> \<le> x * 10" "x * 10 < of_int \<lfloor>x * 10\<rfloor> + 1" by linarith+
  then show ?thesis
    unfolding nearest_tenth_def Let_def by (simp split: if_splits)
qed

lemma py_round1_near: "\<bar>py_round1 x - x\<bar> \<le> 1 / 20"
  using nearest_tenth_near [of x] by (simp add: py_round1_def abs_le_iff field_simps)

lemma py_round1_tenths: "\<exists>k::int. py_round1 x = of_int k / 10"
  by (auto simp: py_round1_def)

text \<open>
  Away from the midpoints \<open>py_round1\<close> is the one nearest tenth, and at the three
  midpoints named above it is what the code stores.
\<close>

lemma nearest_tenth_unique:
  assumes "\<bar>of_int k - x * 10\<bar> < 1 / 2"
  shows "nearest_tenth x = k"
proof -
  from assms have "\<lfloor>x * 10\<rfloor> = k \<or> \<lfloor>x * 10\<rfloor> = k - 1" by linarith
  moreover have "of_int \<lfloor>x * 10\<rfloor> \<le> x * 10" "x * 10 < of_int \<lfloor>x * 10\<rfloor> + 1" by linarith+
  ultimately show ?thesis
    using assms unfolding nearest_tenth_def Let_def by (auto split: if_splits)
qed

lemma py_round1_ties:
  "py_round1 (115 / 4) = 287 / 10"
  "py_round1 (201 / 20) = 101 / 10"
  "py_round1 (25 / 4) = 31 / 5"
  by code_simp+

text \<open>The double of the share 5 is 5.0, so the test \<open>percentage > 5\<close> fails on it.\<close>

lemma double_of_five: "double_of (double_of (5 / 100) * 100) = 5"
  by code_simp

subsection \<open>The breakdown without the loop\<close>

lemma dict_set_fresh: "k \<notin> fst ` set d \<Longrightarrow> dict_set d k v = d @ [(k, v)]"
  by (induction d) auto

lemma countNonZero_inRange:
  "countNonZero (inRange hsv lower upper) = length (filter (\<lambda>p. in_bounds p lower upper) hsv)"
  by (induction hsv) (simp_all add: countNonZero_def inRange_def)

lemma percentage_of_bucket:
  "hsv \<noteq> [] \<Longrightarrow>
     percentage_of (countNonZero (inRange hsv lower upper)) (length hsv) =
       Inr (bucket_percentage hsv lower upper)"
  by (simp add: percentage_of_def countNonZero_inRange bucket_percentage_def)

lemma detect_colors_loop_closed:
  assumes "hsv \<noteq> []"
  shows "distinct (map fst ranges) \<Longrightarrow> fst ` set acc \<inter> fst ` set ranges = {} \<Longrightarrow>
    detect_colors_loop hsv (length hsv) ranges acc = Inr (acc @ retained_buckets hsv ranges)"
proof (induction ranges arbitrary: acc)
  case Nil
  show ?case by (simp add: retained_buckets_def)
next
  case (Cons r ranges)
  obtain color_name lower upper where r: "r = (color_name, lower, upper)"
    by (cases r) auto
  let ?p = "bucket_percentage hsv lower upper"
  let ?acc = "if 5 < ?p then dict_set acc color_name (py_round1 ?p) else acc"
  from Cons.prems r have fresh: "color_name \<notin> fst ` set acc"
    by auto
  then have acc': "?acc = (if 5 < ?p then acc @ [(color_name, py_round1 ?p)] else acc)"
    by (simp add: dict_set_fresh)
  from Cons.prems r have d: "distinct (map fst ranges)" and n: "color_name \<notin> fst ` set ranges"
    by auto
  from Cons.prems r n have disj: "fst ` set ?acc \<inter> fst ` set ranges = {}"
    unfolding acc' by auto
  have "detect_colors_loop hsv (length hsv) (r # ranges) acc =
          detect_colors_loop hsv (length hsv) ranges ?acc"
    using assms by (simp add: r percentage_of_bucket)
  also have "\<dots> = Inr (?acc @ retained_buckets hsv ranges)"
    by (rule Cons.IH [OF d disj])
  also have "?acc @ retained_buckets hsv ranges = acc @ retained_buckets hsv (r # ranges)"
    unfolding acc' by (simp add: retained_buckets_def r)
  finally show ?case .
qed

lemma distinct_COLOR_RANGES: "distinct (map fst COLOR_RANGES)"
  by (simp add: COLOR_RANGES_def)

lemma retained_buckets_Nil: "retained_buckets [] ranges = []"
  by (simp add: retained_buckets_def bucket_percentage_def)

lemma detect_colors_closed:
  "detect_colors cvt roi = Inr (retained_buckets (map cvt roi) COLOR_RANGES)"
proof (cases "roi = []")
  case True
  then show ?thesis by (simp add: detect_colors_def retained_buckets_Nil)
next
  case False
  then have "detect_colors_loop (map cvt roi) (length (map cvt roi)) COLOR_RANGES [] =
    Inr ([] @ retained_buckets (map cvt roi) COLOR_RANGES)"
    by (intro detect_colors_loop_closed distinct_COLOR_RANGES) simp_all
  with False show ?thesis by (simp add: detect_colors_def cvtColor_def)
qed

subsection \<open>Regions without pixels\<close>

text \<open>
  C6: on a region with zero pixels \<open>detect_colors\<close> returns the empty breakdown and
  raises nothing, and \<open>analyze_region\<close> returns no dominant colour, \<open>is_problematic\<close>
  false and no warning, whatever the colorblindness profile. The evaluator itself
  answers (false, null) on the empty breakdown for every profile.
\<close>

theorem zero_pixel_region:
  "detect_colors cvt [] = Inr []
   \<and> analyze_region cvt [] colorblindness_type =
       Inr \<lparr>info_dominant_colors = [], info_is_problematic = False,
            info_warning = None, info_color_breakdown = None\<rparr>
   \<and> is_problematic_for_user [] colorblindness_type = (False, None)"
  by (simp add: detect_colors_def analyze_region_def is_problematic_for_user_def Let_def)

subsection \<open>Which buckets a breakdown holds\<close>

lemma map_of_retained_buckets:
  "distinct (map fst ranges) \<Longrightarrow> (color_name, lower, upper) \<in> set ranges \<Longrightarrow>
     map_of (retained_buckets hsv ranges) color_name =
       (if 5 < bucket_percentage hsv lower upper
        then Some (py_round1 (bucket_percentage hsv lower upper)) else None)"
proof (induction ranges)
  case Nil
  then show ?case by simp
next
  case (Cons r ranges)
  obtain n lo hi where r: "r = (n, lo, hi)" by (cases r) auto
  have keys: "fst ` set (retained_buckets hsv ranges) \<subseteq> fst ` set ranges"
    by (force simp: retained_buckets_def)
  show ?case
  proof (cases "n = color_name")
    case True
    with Cons.prems r have "(color_name, lower, upper) \<notin> set ranges"
      by (auto simp: image_iff)
    with Cons.prems r True have eq: "lo = lower" "hi = upper" by auto
    from Cons.prems r True have "color_name \<notin> fst ` set ranges" by auto
    with keys have "color_name \<notin> fst ` set (retained_buckets hsv ranges)" by blast
    then have "map_of (retained_buckets hsv ranges) color_name = None"
      by (simp add: map_of_eq_None_iff)
    then show ?thesis
      using True eq r by (simp add: retained_buckets_def)
  next
    case False
    with Cons r have "map_of (retained_buckets hsv ranges) color_name =
       (if 5 < bucket_percentage hsv lower upper
        then Some (py_round1 (bucket_percentage hsv lower upper)) else None)"
      by auto
    then show ?thesis
      using False r by (simp add: retained_buckets_def)
  qed
qed

lemma keys_retained_buckets: "fst ` set (retained_buckets hsv ranges) \<subseteq> fst ` set ranges"
  by (force simp: retained_buckets_def)

lemma bucket_percentage_map:
  "bucket_percentage (map cvt roi) lower upper =
     of_nat (length (filter (\<lambda>p. in_bounds (cvt p) lower upper) roi)) / of_nat (length roi) * 100"
  by (simp add: bucket_percentage_def filter_map comp_def)

text \<open>
  C7: for a region with at least one pixel, \<open>detect_colors\<close> returns a breakdown whose
  keys are bucket names, and that holds a bucket exactly when the bucket's share of the
  pixels, (matching pixels / all pixels) times 100, is strictly greater than 5; the value
  kept for it is that share rounded to one decimal place as \<open>round(percentage, 1)\<close>
  rounds it (a multiple of one tenth, at most one twentieth away from the share).
\<close>

theorem detect_colors_retention:
  assumes "roi \<noteq> []"
  shows "\<exists>color_percentages. detect_colors cvt roi = Inr color_percentages
    \<and> fst ` set color_percentages \<subseteq> fst ` set COLOR_RANGES
    \<and> (\<forall>(color_name, lower, upper) \<in> set COLOR_RANGES.
         let percentage = of_nat (length (filter (\<lambda>p. in_bounds (cvt p) lower upper) roi))
                            / of_nat (length roi) * 100
         in map_of color_percentages color_name =
              (if 5 < percentage then Some (py_round1 percentage) else None)
            \<and> \<bar>py_round1 percentage - percentage\<bar> \<le> 1 / 20
            \<and> (\<exists>k::int. py_round1 percentage = of_int k / 10))"
proof -
  let ?bd = "retained_buckets (map cvt roi) COLOR_RANGES"
  have "detect_colors cvt roi = Inr ?bd" by (rule detect_colors_closed)
  moreover have "fst ` set ?bd \<subseteq> fst ` set COLOR_RANGES" by (rule keys_retained_buckets)
  moreover have "\<forall>(color_name, lower, upper) \<in> set COLOR_RANGES.
         let percentage = of_nat (length (filter (\<lambda>p. in_bounds (cvt p) lower upper) roi))
                            / of_nat (length roi) * 100
         in map_of ?bd color_name =
              (if 5 < percentage then Some (py_round1 percentage) else None)
            \<and> \<bar>py_round1 percentage - percentage\<bar> \<le> 1 / 20
            \<and> (\<exists>k::int. py_round1 percentage = of_int k / 10)"
  proof (intro ballI)
    fix r assume mem: "r \<in> set COLOR_RANGES"
    obtain color_name lower upper where r: "r = (color_name, lower, upper)"
      by (cases r) auto
    define percentage :: rat
      where "percentage = of_nat (length (filter (\<lambda>p. in_bounds (cvt p) lower upper) roi))
                            / of_nat (length roi) * 100"
    have bp: "bucket_percentage (map cvt roi) lower upper = percentage"
      unfolding percentage_def by (rule bucket_percentage_map)
    have "map_of ?bd color_name =
            (if 5 < percentage then Some (py_round1 percentage) else None)"
      using map_of_retained_buckets [OF distinct_COLOR_RANGES mem [unfolded r], of "map cvt roi"]
      unfolding bp .
    moreover have "\<bar>py_round1 percentage - percentage\<bar> \<le> 1 / 20"
      by (rule py_round1_near)
    moreover have "\<exists>k::int. py_round1 percentage = of_int k / 10"
      by (rule py_round1_tenths)
    ultimately show "case r of (color_name, lower, upper) \<Rightarrow>
         let percentage = of_nat (length (filter (\<lambda>p. in_bounds (cvt p) lower upper) roi))
                            / of_nat (length roi) * 100
         in map_of ?bd color_name =
              (if 5 < percentage then Some (py_round1 percentage) else None)
            \<and> \<bar>py_round1 percentage - percentage\<bar> \<le> 1 / 20
            \<and> (\<exists>k::int. py_round1 percentage = of_int k / 10)"
      unfolding r prod.case Let_def percentage_def by blast
  qed
  ultimately show ?thesis by blast
qed

text \<open>
  A region of 80 pixels given by its HSV values: 23 pure red, 49 pure green, 8 black.
  The shares of \<open>red_low\<close> and \<open>green\<close> are 28.75 and 61.25, both midway between two
  tenths; the code stores 28.7 and 61.3, and so does the model. \<open>blue\<close> has no pixel and
  is absent.
\<close>

theorem detect_colors_retention_witness:
  "replicate 23 (0, 255, 255) @ replicate 49 (60, 255, 255) @ replicate 8 (0, 0, 0)
     \<noteq> ([] :: region)
   \<and> (''red_low'', (0, 100, 100), (10, 255, 255)) \<in> set COLOR_RANGES
   \<and> (''green'', (35, 100, 100), (85, 255, 255)) \<in> set COLOR_RANGES
   \<and> (''blue'', (100, 100, 100), (130, 255, 255)) \<in> set COLOR_RANGES
   \<and> (\<exists>color_percentages.
        detect_colors (\<lambda>p. p)
          (replicate 23 (0, 255, 255) @ replicate 49 (60, 255, 255) @ replicate 8 (0, 0, 0))
          = Inr color_percentages
        \<and> map_of color_percentages ''red_low'' = Some (287 / 10)
        \<and> map_of color_percentages ''green'' = Some (613 / 10)
        \<and> map_of color_percentages ''blue'' = None)"
proof -
  let ?roi = "replicate 23 (0, 255, 255) @ replicate 49 (60, 255, 255) @ replicate 8 (0, 0, 0)
                :: region"
  have ne: "?roi \<noteq> []" by simp
  have red: "(''red_low'', (0, 100, 100), (10, 255, 255)) \<in> set COLOR_RANGES"
    and green: "(''green'', (35, 100, 100), (85, 255, 255)) \<in> set COLOR_RANGES"
    and blue: "(''blue'', (100, 100, 100), (130, 255, 255)) \<in> set COLOR_RANGES"
    by (simp_all add: COLOR_RANGES_def)
  have p_red: "(of_nat (length (filter (\<lambda>p. in_bounds p (0, 100, 100) (10, 255, 255)) ?roi))
              / of_nat (length ?roi) * 100 :: rat) = 115 / 4"
    by simp
  have p_green: "(of_nat (length (filter (\<lambda>p. in_bounds p (35, 100, 100) (85, 255, 255)) ?roi))
              / of_nat (length ?roi) * 100 :: rat) = 245 / 4"
    by simp
  have p_blue: "(of_nat (length (filter (\<lambda>p. in_bounds p (100, 100, 100) (130, 255, 255)) ?roi))
              / of_nat (length ?roi) * 100 :: rat) = 0"
    by simp
  have r_red: "py_round1 (115 / 4) = 287 / 10" by code_simp
  have r_green: "py_round1 (245 / 4) = 613 / 10" by code_simp
  from detect_colors_retention [OF ne, of "\<lambda>p. p"]
  obtain bd where bd: "detect_colors (\<lambda>p. p) ?roi = Inr bd"
    and all: "\<forall>(color_name, lower, upper) \<in> set COLOR_RANGES.
         let percentage = of_nat (length (filter (\<lambda>p. in_bounds p lower upper) ?roi))
                            / of_nat (length ?roi) * 100
         in map_of bd color_name =
              (if 5 < percentage then Some (py_round1 percentage) else None)
            \<and> \<bar>py_round1 percentage - percentage\<bar> \<le> 1 / 20
            \<and> (\<exists>k::int. py_round1 percentage = of_int k / 10)"
    by blast
  from bspec [OF all red]
  have "map_of bd ''red_low'' = (if (5::rat) < 115 / 4 then Some (py_round1 (115 / 4)) else None)"
    unfolding prod.case Let_def p_red by blast
  then have v_red: "map_of bd ''red_low'' = Some (287 / 10)"
    unfolding r_red by simp
  from bspec [OF all green]
  have "map_of bd ''green'' = (if (5::rat) < 245 / 4 then Some (py_round1 (245 / 4)) else None)"
    unfolding prod.case Let_def p_green by blast
  then have v_green: "map_of bd ''green'' = Some (613 / 10)"
    unfolding r_green by simp
  from bspec [OF all blue]
  have "map_of bd ''blue'' = (if (5::rat) < 0 then Some (py_round1 0) else None)"
    unfolding prod.case Let_def p_blue by blast
  then have v_blue: "map_of bd ''blue'' = None"
    by simp
  from ne red green blue bd v_red v_green v_blue show ?thesis by blast
qed

subsection \<open>The warning of the impact evaluator\<close>

lemma found_problematic_loop_closed:
  "found_problematic_loop problematic detected_colors acc =
     acc @ map (\<lambda>(color_name, percentage). (display_name_of color_name, percentage))
             (filter (\<lambda>(color_name, percentage). color_name \<in> set problematic \<and> 10 < percentage)
                detected_colors)"
  by (induction problematic detected_colors acc rule: found_problematic_loop.induct) simp_all

text \<open>
  C2: \<open>is_problematic_for_user\<close> returns (false, null) when the profile's problematic
  set is empty, which is the case for the normal profile only, or when no bucket of the
  breakdown is in that set with a percentage strictly above 10. Otherwise it returns
  true and the text "Contains ", the display names of the first at most two matching
  buckets in the breakdown's order joined by ", ", and " - may be difficult to see".
  The breakdown \<open>{"red_low": 40.0}\<close> under protanopia gives
  "Contains red - may be difficult to see".
\<close>

theorem is_problematic_for_user_spec:
  "is_problematic_for_user detected_colors colorblindness_type =
     (let problematic = PROBLEMATIC_COLORS colorblindness_type;
          matching = filter (\<lambda>(color_name, percentage).
                               color_name \<in> set problematic \<and> 10 < percentage) detected_colors
      in if problematic = [] \<or> matching = [] then (False, None)
         else (True,
               Some (''Contains ''
                     @ py_join '', '' (map (\<lambda>(color_name, percentage). display_name_of color_name)
                                         (take 2 matching))
                     @ '' - may be difficult to see'')))
   \<and> (PROBLEMATIC_COLORS colorblindness_type = [] \<longleftrightarrow> colorblindness_type = NORMAL)
   \<and> is_problematic_for_user [(''red_low'', 40)] PROTANOPIA =
       (True, Some ''Contains red - may be difficult to see'')"
proof -
  have names: "map fst (take 2 (map (\<lambda>(color_name, percentage). (display_name_of color_name, percentage)) xs))
      = map (\<lambda>(color_name, percentage). display_name_of color_name) (take 2 xs)"
    for xs :: breakdown
    by (simp add: take_map case_prod_unfold comp_def)
  have "is_problematic_for_user detected_colors colorblindness_type =
     (let problematic = PROBLEMATIC_COLORS colorblindness_type;
          matching = filter (\<lambda>(color_name, percentage).
                               color_name \<in> set problematic \<and> 10 < percentage) detected_colors
      in if problematic = [] \<or> matching = [] then (False, None)
         else (True,
               Some (''Contains ''
                     @ py_join '', '' (map (\<lambda>(color_name, percentage). display_name_of color_name)
                                         (take 2 matching))
                     @ '' - may be difficult to see'')))"
    unfolding is_problematic_for_user_def Let_def found_problematic_loop_closed
    by (simp add: names)
  moreover have "PROBLEMATIC_COLORS colorblindness_type = [] \<longleftrightarrow> colorblindness_type = NORMAL"
    by (cases colorblindness_type) (simp_all add: COLOR_RANGES_def)
  moreover have "is_problematic_for_user [(''red_low'', 40)] PROTANOPIA =
       (True, Some ''Contains red - may be difficult to see'')"
    by (simp add: is_problematic_for_user_def display_name_of_def COLOR_DISPLAY_NAMES_def)
  ultimately show ?thesis by blast
qed

lemma is_problematic_iff_warning:
  "fst (is_problematic_for_user detected_colors colorblindness_type) \<longleftrightarrow>
     snd (is_problematic_for_user detected_colors colorblindness_type) \<noteq> None"
  by (simp add: is_problematic_for_user_def Let_def)

subsection \<open>The sum of a breakdown\<close>

lemma length_filter_sum_list:
  "length (filter P xs) = sum_list (map (\<lambda>x. if P x then 1 else 0) xs)"
  by (induction xs) simp_all

lemma bucket_counts_le:
  assumes "\<forall>p \<in> set hsv.
             length (filter (\<lambda>(color_name, lower, upper). in_bounds p lower upper) ranges) \<le> 1"
  shows "sum_list (map (\<lambda>(color_name, lower, upper).
                          length (filter (\<lambda>p. in_bounds p lower upper) hsv)) ranges)
           \<le> length hsv"
  using assms
proof (induction hsv)
  case Nil
  then show ?case by (simp add: case_prod_unfold)
next
  case (Cons p hsv)
  have split: "sum_list (map (\<lambda>(color_name, lower, upper).
                          length (filter (\<lambda>q. in_bounds q lower upper) (p # hsv))) ranges)
     = length (filter (\<lambda>(color_name, lower, upper). in_bounds p lower upper) ranges)
       + sum_list (map (\<lambda>(color_name, lower, upper).
                          length (filter (\<lambda>q. in_bounds q lower upper) hsv)) ranges)"
  proof -
    have pt: "length (filter (\<lambda>q. in_bounds q lower upper) (p # hsv))
        = (if in_bounds p lower upper then 1 else 0)
          + length (filter (\<lambda>q. in_bounds q lower upper) hsv)" for lower upper
      by simp
    show ?thesis
      by (simp only: pt length_filter_sum_list [of _ ranges] case_prod_unfold sum_list_addf)
  qed
  from Cons.prems
  have "length (filter (\<lambda>(color_name, lower, upper). in_bounds p lower upper) ranges) \<le> 1"
    by simp
  moreover from Cons have "sum_list (map (\<lambda>(color_name, lower, upper).
                          length (filter (\<lambda>q. in_bounds q lower upper) hsv)) ranges)
           \<le> length hsv"
    by simp
  ultimately show ?case unfolding split by simp
qed

lemma sum_bucket_percentage:
  "sum_list (map (\<lambda>(color_name, lower, upper). bucket_percentage hsv lower upper) ranges)
     = of_nat (sum_list (map (\<lambda>(color_name, lower, upper).
                          length (filter (\<lambda>p. in_bounds p lower upper) hsv)) ranges))
         / of_nat (length hsv) * 100"
  by (induction ranges) (auto simp: bucket_percentage_def add_divide_distrib distrib_right)

lemma bucket_percentage_nonneg: "0 \<le> bucket_percentage hsv lower upper"
  by (simp add: bucket_percentage_def)

lemma sum_bucket_percentage_le:
  assumes "\<forall>p \<in> set hsv.
             length (filter (\<lambda>(color_name, lower, upper). in_bounds p lower upper) ranges) \<le> 1"
  shows "sum_list (map (\<lambda>(color_name, lower, upper). bucket_percentage hsv lower upper) ranges)
           \<le> 100"
proof (cases "hsv = []")
  case True
  then show ?thesis by (simp add: sum_bucket_percentage)
next
  case False
  let ?n = "sum_list (map (\<lambda>(color_name, lower, upper).
                          length (filter (\<lambda>p. in_bounds p lower upper) hsv)) ranges)"
  from bucket_counts_le [OF assms] have "(of_nat ?n :: rat) \<le> of_nat (length hsv)"
    by (simp only: of_nat_le_iff)
  moreover from False have "(0::rat) < of_nat (length hsv)" by simp
  ultimately have "(of_nat ?n :: rat) / of_nat (length hsv) \<le> 1"
    by (simp add: divide_le_eq)
  then have "(of_nat ?n :: rat) / of_nat (length hsv) * 100 \<le> 1 * 100"
    by (rule mult_right_mono) simp
  then show ?thesis by (simp only: sum_bucket_percentage mult_1)
qed

lemma sum_retained_buckets_le:
  "sum_list (map snd (retained_buckets hsv ranges))
     \<le> sum_list (map (\<lambda>(color_name, lower, upper). bucket_percentage hsv lower upper) ranges)
        + of_nat (length (retained_buckets hsv ranges)) / 20"
proof (induction ranges)
  case Nil
  then show ?case by (simp add: retained_buckets_def)
next
  case (Cons r ranges)
  obtain color_name lower upper where r: "r = (color_name, lower, upper)"
    by (cases r) auto
  let ?p = "bucket_percentage hsv lower upper"
  have near: "py_round1 ?p \<le> ?p + 1 / 20"
    using py_round1_near [of ?p] by linarith
  have nonneg: "0 \<le> ?p" by (rule bucket_percentage_nonneg)
  have step: "retained_buckets hsv (r # ranges) =
     (if 5 < ?p then [(color_name, py_round1 ?p)] else []) @ retained_buckets hsv ranges"
    by (simp add: retained_buckets_def r)
  show ?case
    unfolding step using Cons.IH near nonneg by (simp add: r add_divide_distrib)
qed

lemma length_retained_buckets: "length (retained_buckets hsv ranges) \<le> length ranges"
  by (simp add: retained_buckets_def)

text \<open>
  C1, as stated, fails twice. A pixel on a hue boundary shared by two buckets is counted
  in both, since \<open>cv2.inRange\<close> includes both bounds: the one-pixel region with HSV value
  (10, 255, 255), which is the BGR pixel (0, 85, 255), is 100 percent \<open>red_low\<close> and 100
  percent \<open>orange\<close>. And the stored percentages are rounded: the six pure colours red,
  yellow, green, cyan, blue and magenta, one pixel each and each inside one bucket only,
  give six times 16.7, which is 100.2.
\<close>

theorem detect_colors_sum_counterexample:
  "detect_colors (\<lambda>p. p) [(10, 255, 255)] = Inr [(''red_low'', 100), (''orange'', 100)]
   \<and> \<not> sum_list (map snd [(''red_low'', 100 :: rat), (''orange'', 100)]) \<le> 100
   \<and> detect_colors (\<lambda>p. p)
        [(0, 255, 255), (30, 255, 255), (60, 255, 255), (90, 255, 255), (120, 255, 255),
         (150, 255, 255)]
       = Inr [(''red_low'', 167 / 10), (''yellow'', 167 / 10), (''green'', 167 / 10),
              (''cyan'', 167 / 10), (''blue'', 167 / 10), (''purple'', 167 / 10)]
   \<and> \<not> sum_list (map snd [(''red_low'', 167 / 10 :: rat), (''yellow'', 167 / 10),
              (''green'', 167 / 10), (''cyan'', 167 / 10), (''blue'', 167 / 10),
              (''purple'', 167 / 10)]) \<le> 100"
proof -
  have "detect_colors (\<lambda>p. p) [(10, 255, 255)] = Inr [(''red_low'', 100), (''orange'', 100)]"
    by code_simp
  moreover have "detect_colors (\<lambda>p. p)
        [(0, 255, 255), (30, 255, 255), (60, 255, 255), (90, 255, 255), (120, 255, 255),
         (150, 255, 255)]
       = Inr [(''red_low'', 167 / 10), (''yellow'', 167 / 10), (''green'', 167 / 10),
              (''cyan'', 167 / 10), (''blue'', 167 / 10), (''purple'', 167 / 10)]"
    by code_simp
  ultimately show ?thesis by simp
qed

text \<open>
  C1, amended: for every region in which no pixel lies inside the bounds of more than
  one bucket, the exact shares of all ten buckets sum to at most 100, and the stored
  percentages of the at most ten retained buckets, each rounded to one decimal place,
  sum to at most 100 plus 0.05 for each retained bucket. Nothing is stated for a
  region with a pixel inside two buckets.
\<close>

theorem detect_colors_sum_bound:
  assumes "\<forall>p \<in> set roi.
             length (filter (\<lambda>(color_name, lower, upper). in_bounds (cvt p) lower upper)
                       COLOR_RANGES) \<le> 1"
  shows "\<exists>color_percentages. detect_colors cvt roi = Inr color_percentages
     \<and> sum_list (map snd color_percentages) \<le> 100 + of_nat (length color_percentages) / 20
     \<and> length color_percentages \<le> 10
     \<and> sum_list (map (\<lambda>(color_name, lower, upper).
                          bucket_percentage (map cvt roi) lower upper) COLOR_RANGES) \<le> 100"
proof -
  let ?hsv = "map cvt roi"
  let ?bd = "retained_buckets ?hsv COLOR_RANGES"
  from assms have one: "\<forall>p \<in> set ?hsv.
      length (filter (\<lambda>(color_name, lower, upper). in_bounds p lower upper) COLOR_RANGES) \<le> 1"
    by simp
  have exact: "sum_list (map (\<lambda>(color_name, lower, upper).
                          bucket_percentage ?hsv lower upper) COLOR_RANGES) \<le> 100"
    by (rule sum_bucket_percentage_le [OF one])
  have "sum_list (map snd ?bd) \<le> 100 + of_nat (length ?bd) / 20"
    using sum_retained_buckets_le [of ?hsv COLOR_RANGES] exact by linarith
  moreover have "length ?bd \<le> 10"
    using length_retained_buckets [of ?hsv COLOR_RANGES] by (simp add: COLOR_RANGES_def)
  moreover have "detect_colors cvt roi = Inr ?bd"
    by (rule detect_colors_closed)
  ultimately show ?thesis using exact by blast
qed

text \<open>The six pure colours again: 100.2 is within 100 plus six times 0.05.\<close>

theorem detect_colors_sum_bound_witness:
  "\<exists>color_percentages.
     detect_colors (\<lambda>p. p)
        [(0, 255, 255), (30, 255, 255), (60, 255, 255), (90, 255, 255), (120, 255, 255),
         (150, 255, 255)] = Inr color_percentages
     \<and> sum_list (map snd color_percentages) \<le> 100 + of_nat (length color_percentages) / 20
     \<and> sum_list (map snd color_percentages) = 501 / 5"
proof -
  let ?roi = "[(0, 255, 255), (30, 255, 255), (60, 255, 255), (90, 255, 255), (120, 255, 255),
         (150, 255, 255)] :: region"
  have one: "\<forall>p \<in> set ?roi.
             length (filter (\<lambda>(color_name, lower, upper). in_bounds ((\<lambda>p. p) p) lower upper)
                       COLOR_RANGES) \<le> 1"
    by (simp add: COLOR_RANGES_def)
  have val: "detect_colors (\<lambda>p. p) ?roi
       = Inr [(''red_low'', 167 / 10), (''yellow'', 167 / 10), (''green'', 167 / 10),
              (''cyan'', 167 / 10), (''blue'', 167 / 10), (''purple'', 167 / 10)]"
    by code_simp
  from detect_colors_sum_bound [OF one]
  obtain bd where bd: "detect_colors (\<lambda>p. p) ?roi = Inr bd"
    and le: "sum_list (map snd bd) \<le> 100 + of_nat (length bd) / 20"
    by blast
  from bd val
  have "bd = [(''red_low'', 167 / 10), (''yellow'', 167 / 10), (''green'', 167 / 10),
              (''cyan'', 167 / 10), (''blue'', 167 / 10), (''purple'', 167 / 10)]"
    by simp
  then have "sum_list (map snd bd) = 501 / 5" by simp
  with bd le show ?thesis by blast
qed

section \<open>Properties of the alert synthesis\<close>

subsection \<open>The final priority\<close>

text \<open>
  The test \<open>obj in label.lower()\<close> against a lower-case keyword is containment up to
  case: some stretch of the label lower-cases to the keyword.
\<close>

lemma sublist_py_lower:
  "sublist keyword (py_lower label) \<longleftrightarrow> (\<exists>u. sublist u label \<and> py_lower u = keyword)"
proof
  assume "sublist keyword (py_lower label)"
  then obtain ps ss where "map lower_char label = ps @ keyword @ ss"
    unfolding sublist_def py_lower_def by blast
  then have "\<exists>l1 l2. label = l1 @ l2 \<and> ps = map lower_char l1
      \<and> keyword @ ss = map lower_char l2"
    by (rule map_eq_append_conv [THEN iffD1])
  then obtain l1 l2 where l: "label = l1 @ l2" "map lower_char l2 = keyword @ ss"
    by metis
  from l(2) have "\<exists>u l3. l2 = u @ l3 \<and> keyword = map lower_char u \<and> ss = map lower_char l3"
    by (rule map_eq_append_conv [THEN iffD1])
  then obtain u l3 where u: "l2 = u @ l3" "map lower_char u = keyword"
    by metis
  from l(1) u(1) have "sublist u label" unfolding sublist_def by blast
  with u(2) show "\<exists>u. sublist u label \<and> py_lower u = keyword"
    unfolding py_lower_def by blast
next
  assume "\<exists>u. sublist u label \<and> py_lower u = keyword"
  then obtain u ps ss where "label = ps @ u @ ss" "map lower_char u = keyword"
    unfolding sublist_def py_lower_def by blast
  then have "map lower_char label = map lower_char ps @ keyword @ map lower_char ss"
    by simp
  then show "sublist keyword (py_lower label)"
    unfolding sublist_def py_lower_def by blast
qed

text \<open>
  C3: \<open>determine_priority\<close> returns the value of the six-row table, the rows read from
  the top. A label whose lower-cased text contains one of the critical keywords gives
  "critical" when the colour is problematic and "high" otherwise; any other label that
  contains one of the high keywords gives "high" and "normal"; every remaining label gives
  "normal" and "low". The label "stop sign" gives "critical" and "high".
\<close>

theorem determine_priority_table:
  "determine_priority label is_problematic =
     (if \<exists>keyword \<in> set [''traffic light'', ''stop sign'', ''fire'', ''emergency vehicle''].
           sublist keyword (py_lower label)
      then (if is_problematic then ''critical'' else ''high'')
      else if \<exists>keyword \<in> set [''brake light'', ''turn signal'', ''yield sign'',
                                 ''warning sign'', ''cone''].
                sublist keyword (py_lower label)
      then (if is_problematic then ''high'' else ''normal'')
      else (if is_problematic then ''normal'' else ''low''))
   \<and> determine_priority ''stop sign'' True = ''critical''
   \<and> determine_priority ''stop sign'' False = ''high''"
proof -
  have "determine_priority ''stop sign'' True = ''critical''"
    by code_simp
  moreover have "determine_priority ''stop sign'' False = ''high''"
    by code_simp
  moreover have "determine_priority label is_problematic =
     (if \<exists>keyword \<in> set [''traffic light'', ''stop sign'', ''fire'', ''emergency vehicle''].
           sublist keyword (py_lower label)
      then (if is_problematic then ''critical'' else ''high'')
      else if \<exists>keyword \<in> set [''brake light'', ''turn signal'', ''yield sign'',
                                 ''warning sign'', ''cone''].
                sublist keyword (py_lower label)
      then (if is_problematic then ''high'' else ''normal'')
      else (if is_problematic then ''normal'' else ''low''))"
    unfolding determine_priority_def Let_def list_ex_iff ..
  ultimately show ?thesis by blast
qed

text \<open>A label in mixed case with a high keyword and no critical one.\<close>

theorem determine_priority_table_witness:
  "determine_priority ''Yield Sign ahead'' False = ''normal''"
proof -
  have c: "\<not> (\<exists>keyword \<in> set [''traffic light'', ''stop sign'', ''fire'', ''emergency vehicle''].
           sublist keyword (py_lower ''Yield Sign ahead''))"
    by code_simp
  have h: "\<exists>keyword \<in> set [''brake light'', ''turn signal'', ''yield sign'',
                                 ''warning sign'', ''cone''].
                sublist keyword (py_lower ''Yield Sign ahead'')"
    by code_simp
  from determine_priority_table [of "''Yield Sign ahead''" False] c h
  show ?thesis by simp
qed

subsection \<open>The colorblindness profile of a request\<close>

text \<open>
  C9: a profile string whose lower-cased text is none of the eight profile names is
  parsed to the normal profile without an error, and the whole response is the one that
  the string "normal" gives.
\<close>

theorem unknown_profile_is_normal:
  assumes "py_lower colorblindness_type \<notin>
             {''normal'', ''protanopia'', ''protanomaly'', ''deuteranopia'', ''deuteranomaly'',
              ''tritanopia'', ''tritanomaly'', ''achromatopsia''}"
  shows "parse_cb_type colorblindness_type = Inr NORMAL
     \<and> detect_objects cvt nms detector outputs frm colorblindness_type min_confidence
       = detect_objects cvt nms detector outputs frm ''normal'' min_confidence"
proof -
  from assms have "py_lower colorblindness_type \<notin> fst ` set ColorBlindnessType_values"
    by (simp add: ColorBlindnessType_values_def)
  then have "map_of ColorBlindnessType_values (py_lower colorblindness_type) = None"
    by (simp add: map_of_eq_None_iff)
  then have unknown: "parse_cb_type colorblindness_type = Inr NORMAL"
    by (simp add: parse_cb_type_def ColorBlindnessType_of_value_def)
  have normal: "parse_cb_type ''normal'' = Inr NORMAL"
    by code_simp
  have "detect_objects cvt nms detector outputs frm colorblindness_type min_confidence
       = detect_objects cvt nms detector outputs frm ''normal'' min_confidence"
    by (cases detector) (simp_all add: detect_objects_def unknown normal)
  with unknown show ?thesis by simp
qed

theorem unknown_profile_is_normal_witness:
  "parse_cb_type ''Red-Green'' = Inr NORMAL
   \<and> detect_objects (\<lambda>p. p) (\<lambda>boxes confidences t n. [0..<length boxes]) (Some True)
        [[[1 / 2, 1 / 2, 1, 1, 9 / 10, 0, 0, 0, 0, 0, 0, 0, 0, 0, 9 / 10]]]
        [[(0, 255, 255)]] ''Red-Green'' (1 / 2)
     = detect_objects (\<lambda>p. p) (\<lambda>boxes confidences t n. [0..<length boxes]) (Some True)
        [[[1 / 2, 1 / 2, 1, 1, 9 / 10, 0, 0, 0, 0, 0, 0, 0, 0, 0, 9 / 10]]]
        [[(0, 255, 255)]] ''normal'' (1 / 2)"
proof -
  have "py_lower ''Red-Green'' \<notin>
             {''normal'', ''protanopia'', ''protanomaly'', ''deuteranopia'', ''deuteranomaly'',
              ''tritanopia'', ''tritanomaly'', ''achromatopsia''}"
    by code_simp
  then show ?thesis by (rule unknown_profile_is_normal)
qed

subsection \<open>The loop over the detections\<close>

lemma analyze_region_closed:
  "analyze_region cvt roi colorblindness_type = Inr (region_info cvt roi colorblindness_type)"
  by (simp add: analyze_region_def get_dominant_colors_def detect_colors_closed
        region_info_def Let_def case_prod_unfold)

lemma region_info_warning:
  "info_is_problematic (region_info cvt roi colorblindness_type) \<longleftrightarrow>
     info_warning (region_info cvt roi colorblindness_type) \<noteq> None"
  by (simp add: region_info_def Let_def is_problematic_iff_warning)

lemma analyzed_object_warning:
  "obj_is_problematic_color (analyzed_object cvt frm cb_type det) \<longleftrightarrow>
     obj_color_warning (analyzed_object cvt frm cb_type det) \<noteq> None"
  by (cases "det_bbox det") (simp add: analyzed_object_def Let_def region_info_warning)

lemma analyzed_object_label [simp]:
  "obj_label (analyzed_object cvt frm cb_type det) = det_label det"
  by (cases "det_bbox det") (simp add: analyzed_object_def Let_def)

lemma analyzed_object_priority:
  "obj_priority (analyzed_object cvt frm cb_type det) =
     determine_priority (obj_label (analyzed_object cvt frm cb_type det))
       (obj_is_problematic_color (analyzed_object cvt frm cb_type det))"
  by (cases "det_bbox det") (simp add: analyzed_object_def Let_def)

lemma objects_loop_closed:
  "objects_loop cvt frm cb_type detections detected_objects critical_alerts =
     Inr (detected_objects @ map (analyzed_object cvt frm cb_type) detections,
          critical_alerts @
          map alert_entry (filter raises_alert (map (analyzed_object cvt frm cb_type) detections)))"
proof (induction detections arbitrary: detected_objects critical_alerts)
  case Nil
  show ?case by simp
next
  case (Cons det rest)
  obtain x y w h where bbox: "det_bbox det = (x, y, w, h)"
    by (cases "det_bbox det") auto
  let ?obj = "analyzed_object cvt frm cb_type det"
  let ?info = "region_info cvt (crop frm x y w h) cb_type"
  have obj: "?obj = \<lparr>obj_label = det_label det,
                obj_confidence = det_confidence det,
                obj_bbox = (x, y, w, h),
                obj_dominant_colors = info_dominant_colors ?info,
                obj_is_problematic_color = info_is_problematic ?info,
                obj_color_warning = info_warning ?info,
                obj_priority = determine_priority (det_label det) (info_is_problematic ?info)\<rparr>"
    by (simp add: analyzed_object_def bbox Let_def)
  have step: "objects_loop cvt frm cb_type (det # rest) detected_objects critical_alerts =
      objects_loop cvt frm cb_type rest (detected_objects @ [?obj])
        (if raises_alert ?obj then critical_alerts @ [alert_entry ?obj] else critical_alerts)"
    unfolding obj
    by (cases "info_is_problematic ?info")
      (simp_all add: bbox analyze_region_closed Let_def raises_alert_def alert_entry_def)
  show ?case
    unfolding step Cons.IH by simp
qed

subsection \<open>The alert of a frame\<close>

lemma alert_entry_default:
  "raises_alert (analyzed_object cvt frm cb_type det) \<Longrightarrow>
     alert_entry (analyzed_object cvt frm cb_type det) =
       obj_label (analyzed_object cvt frm cb_type det) @ '': '' @
       (case obj_color_warning (analyzed_object cvt frm cb_type det) of
          None \<Rightarrow> ''color may be hard to see'' | Some w \<Rightarrow> w)"
  using analyzed_object_warning [of cvt frm cb_type det]
  by (auto simp: raises_alert_def alert_entry_def format_warning_def)

lemma detect_objects_Inr:
  assumes "detect_objects cvt nms detector outputs frm colorblindness_type min_confidence
             = Inr response"
  shows "\<exists>loaded cb_type detections.
      detector = Some loaded
    \<and> parse_cb_type colorblindness_type = Inr cb_type
    \<and> detect loaded nms (int (frame_width_of frm)) (int (frame_height_of frm)) outputs
         min_confidence = Inr detections
    \<and> resp_objects response = map (analyzed_object cvt frm cb_type) detections
    \<and> resp_alert_message response =
        (let critical_alerts = map alert_entry (filter raises_alert (resp_objects response))
         in if critical_alerts \<noteq> [] then Some (py_join ''; '' (take 3 critical_alerts))
            else None)"
proof -
  from assms obtain loaded where d: "detector = Some loaded"
    by (cases detector) (simp_all add: detect_objects_def)
  from assms d obtain cb_type where p: "parse_cb_type colorblindness_type = Inr cb_type"
    by (cases "parse_cb_type colorblindness_type") (simp_all add: detect_objects_def Let_def)
  from assms d p obtain detections
    where dt: "detect loaded nms (int (frame_width_of frm)) (int (frame_height_of frm)) outputs
         min_confidence = Inr detections"
    by (cases "detect loaded nms (int (frame_width_of frm)) (int (frame_height_of frm)) outputs
         min_confidence") (simp_all add: detect_objects_def Let_def)
  from assms have "response =
      \<lparr>resp_success = True,
       resp_objects = map (analyzed_object cvt frm cb_type) detections,
       resp_frame_width = frame_width_of frm,
       resp_frame_height = frame_height_of frm,
       resp_alert_message =
         (let critical_alerts =
                map alert_entry (filter raises_alert (map (analyzed_object cvt frm cb_type) detections))
          in if critical_alerts \<noteq> [] then Some (py_join ''; '' (take 3 critical_alerts))
             else None)\<rparr>"
    by (simp add: detect_objects_def d p dt objects_loop_closed Let_def)
  then have "resp_objects response = map (analyzed_object cvt frm cb_type) detections"
    and "resp_alert_message response =
        (let critical_alerts = map alert_entry (filter raises_alert (resp_objects response))
         in if critical_alerts \<noteq> [] then Some (py_join ''; '' (take 3 critical_alerts))
            else None)"
    by simp_all
  with d p dt show ?thesis by blast
qed

text \<open>
  C4: in every response of \<open>detect_objects\<close> the objects are the analysed detections in
  the detector's order, and the alert list built beside them holds, in that order,
  exactly one entry "label: warning" for each object whose colour is problematic and
  whose final priority is "critical" or "high" (the text "color may be hard to see"
  standing for a null warning). The alert message is null when that list is empty and
  otherwise its first at most three entries joined by "; ".
\<close>

theorem alert_message_spec:
  assumes "detect_objects cvt nms detector outputs frm colorblindness_type min_confidence
             = Inr response"
  shows "\<exists>cb_type detections alerts.
      parse_cb_type colorblindness_type = Inr cb_type
    \<and> length (resp_objects response) = length detections
    \<and> map obj_label (resp_objects response) = map det_label detections
    \<and> objects_loop cvt frm cb_type detections [] [] = Inr (resp_objects response, alerts)
    \<and> alerts =
        map (\<lambda>obj. obj_label obj @ '': '' @
                    (case obj_color_warning obj of
                       None \<Rightarrow> ''color may be hard to see'' | Some w \<Rightarrow> w))
          (filter (\<lambda>obj. obj_is_problematic_color obj
                          \<and> (obj_priority obj = ''critical'' \<or> obj_priority obj = ''high''))
             (resp_objects response))
    \<and> resp_alert_message response =
        (if alerts = [] then None else Some (py_join ''; '' (take 3 alerts)))"
proof -
  from detect_objects_Inr [OF assms] obtain loaded cb_type detections where
    p: "parse_cb_type colorblindness_type = Inr cb_type"
    and objs: "resp_objects response = map (analyzed_object cvt frm cb_type) detections"
    and msg: "resp_alert_message response =
        (let critical_alerts = map alert_entry (filter raises_alert (resp_objects response))
         in if critical_alerts \<noteq> [] then Some (py_join ''; '' (take 3 critical_alerts))
            else None)"
    by blast
  let ?alerts = "map alert_entry (filter raises_alert (resp_objects response))"
  have loop: "objects_loop cvt frm cb_type detections [] [] = Inr (resp_objects response, ?alerts)"
    by (simp add: objects_loop_closed objs)
  have test: "raises_alert =
      (\<lambda>obj. obj_is_problematic_color obj
              \<and> (obj_priority obj = ''critical'' \<or> obj_priority obj = ''high''))"
    by (auto simp: raises_alert_def fun_eq_iff)
  have "?alerts =
        map (\<lambda>obj. obj_label obj @ '': '' @
                    (case obj_color_warning obj of
                       None \<Rightarrow> ''color may be hard to see'' | Some w \<Rightarrow> w))
          (filter raises_alert (resp_objects response))"
    unfolding objs by (rule map_cong) (auto simp: alert_entry_default)
  then have spec: "?alerts =
        map (\<lambda>obj. obj_label obj @ '': '' @
                    (case obj_color_warning obj of
                       None \<Rightarrow> ''color may be hard to see'' | Some w \<Rightarrow> w))
          (filter (\<lambda>obj. obj_is_problematic_color obj
                          \<and> (obj_priority obj = ''critical'' \<or> obj_priority obj = ''high''))
             (resp_objects response))"
    by (simp only: test)
  have m: "resp_alert_message response =
        (if ?alerts = [] then None else Some (py_join ''; '' (take 3 ?alerts)))"
    unfolding msg Let_def by simp
  have len: "length (resp_objects response) = length detections"
    and lab: "map obj_label (resp_objects response) = map det_label detections"
    by (simp_all add: objs comp_def)
  from p len lab loop spec m show ?thesis by blast
qed

text \<open>
  A frame of one pure red pixel (HSV (0, 255, 255)) under protanopia, with two traffic
  lights and two stop signs detected on it and every box kept: four entries qualify,
  the message joins the first three.
\<close>

theorem alert_message_spec_witness:
  "\<exists>response alerts.
      detect_objects (\<lambda>p. p) (\<lambda>boxes confidences t n. [0..<length boxes]) (Some True)
        [[[1 / 2, 1 / 2, 1, 1, 1, 0, 0, 0, 0, 0, 0, 0, 0, 0, 9 / 10],
          [1 / 2, 1 / 2, 1, 1, 1, 0, 0, 0, 0, 0, 0, 0, 0, 0, 0, 0, 8 / 10],
          [1 / 2, 1 / 2, 1, 1, 1, 0, 0, 0, 0, 0, 0, 0, 0, 0, 7 / 10],
          [1 / 2, 1 / 2, 1, 1, 1, 0, 0, 0, 0, 0, 0, 0, 0, 0, 0, 0, 6 / 10]]]
        [[(0, 255, 255)]] ''protanopia'' (1 / 2) = Inr response
    \<and> length (resp_objects response) = 4
    \<and> length alerts = 4
    \<and> resp_alert_message response = Some (py_join ''; '' (take 3 alerts))
    \<and> resp_alert_message response =
        Some ''traffic light: Contains red - may be difficult to see; stop sign: Contains red - may be difficult to see; traffic light: Contains red - may be difficult to see''"
proof -
  let ?R = "\<lparr>resp_success = True,
        resp_objects =
          [\<lparr>obj_label = ''traffic light'', obj_confidence = 9 / 10,
            obj_bbox = (0, 0, 1, 1), obj_dominant_colors = [''red''],
            obj_is_problematic_color = True,
            obj_color_warning = Some ''Contains red - may be difficult to see'',
            obj_priority = ''critical''\<rparr>,
           \<lparr>obj_label = ''stop sign'', obj_confidence = 4 / 5,
            obj_bbox = (0, 0, 1, 1), obj_dominant_colors = [''red''],
            obj_is_problematic_color = True,
            obj_color_warning = Some ''Contains red - may be difficult to see'',
            obj_priority = ''critical''\<rparr>,
           \<lparr>obj_label = ''traffic light'', obj_confidence = 7 / 10,
            obj_bbox = (0, 0, 1, 1), obj_dominant_colors = [''red''],
            obj_is_problematic_color = True,
            obj_color_warning = Some ''Contains red - may be difficult to see'',
            obj_priority = ''critical''\<rparr>,
           \<lparr>obj_label = ''stop sign'', obj_confidence = 3 / 5,
            obj_bbox = (0, 0, 1, 1), obj_dominant_colors = [''red''],
            obj_is_problematic_color = True,
            obj_color_warning = Some ''Contains red - may be difficult to see'',
            obj_priority = ''critical''\<rparr>],
        resp_frame_width = 1, resp_frame_height = 1,
        resp_alert_message =
          Some ''traffic light: Contains red - may be difficult to see; stop sign: Contains red - may be difficult to see; traffic light: Contains red - may be difficult to see''\<rparr>"
  have ev: "detect_objects (\<lambda>p. p) (\<lambda>boxes confidences t n. [0..<length boxes]) (Some True)
        [[[1 / 2, 1 / 2, 1, 1, 1, 0, 0, 0, 0, 0, 0, 0, 0, 0, 9 / 10],
          [1 / 2, 1 / 2, 1, 1, 1, 0, 0, 0, 0, 0, 0, 0, 0, 0, 0, 0, 8 / 10],
          [1 / 2, 1 / 2, 1, 1, 1, 0, 0, 0, 0, 0, 0, 0, 0, 0, 7 / 10],
          [1 / 2, 1 / 2, 1, 1, 1, 0, 0, 0, 0, 0, 0, 0, 0, 0, 0, 0, 6 / 10]]]
        [[(0, 255, 255)]] ''protanopia'' (1 / 2) = Inr ?R"
    by code_simp
  from alert_message_spec [OF ev] obtain alerts where
    a: "alerts =
        map (\<lambda>obj. obj_label obj @ '': '' @
                    (case obj_color_warning obj of
                       None \<Rightarrow> ''color may be hard to see'' | Some w \<Rightarrow> w))
          (filter (\<lambda>obj. obj_is_problematic_color obj
                          \<and> (obj_priority obj = ''critical'' \<or> obj_priority obj = ''high''))
             (resp_objects ?R))"
    and m: "resp_alert_message ?R =
        (if alerts = [] then None else Some (py_join ''; '' (take 3 alerts)))"
    by blast
  from a have len: "length alerts = 4" by simp
  then have "alerts \<noteq> []" by auto
  with m have msg: "resp_alert_message ?R = Some (py_join ''; '' (take 3 alerts))"
    by simp
  have "length (resp_objects ?R) = 4" by simp
  moreover have "resp_alert_message ?R =
        Some ''traffic light: Contains red - may be difficult to see; stop sign: Contains red - may be difficult to see; traffic light: Contains red - may be difficult to see''"
    by simp
  ultimately show ?thesis using ev len msg by blast
qed

subsection \<open>Warnings and the problematic flag\<close>

text \<open>
  C10: \<open>is_problematic_for_user\<close> returns a warning exactly when it returns true.
  So in the loop of \<open>detect_objects\<close> every analysed object has a warning exactly when
  its colour is problematic, and every entry of the alert list is the label of one of the
  objects followed by that object's own warning: the default text is never used. The
  same holds for the objects of every response.
\<close>

theorem warning_iff_problematic:
  "(fst (is_problematic_for_user detected_colors colorblindness_type) \<longleftrightarrow>
      snd (is_problematic_for_user detected_colors colorblindness_type) \<noteq> None)
   \<and> (\<exists>detected_objects critical_alerts.
        objects_loop cvt frm cb_type detections [] [] = Inr (detected_objects, critical_alerts)
      \<and> (\<forall>obj \<in> set detected_objects.
            obj_is_problematic_color obj \<longleftrightarrow> obj_color_warning obj \<noteq> None)
      \<and> (\<forall>a \<in> set critical_alerts. \<exists>obj \<in> set detected_objects. \<exists>w.
            obj_is_problematic_color obj \<and> obj_color_warning obj = Some w
            \<and> a = obj_label obj @ '': '' @ w))
   \<and> (detect_objects cvt nms detector outputs frm profile min_confidence = Inr response \<longrightarrow>
        (\<forall>obj \<in> set (resp_objects response).
            obj_is_problematic_color obj \<longleftrightarrow> obj_color_warning obj \<noteq> None))"
proof -
  let ?objs = "map (analyzed_object cvt frm cb_type) detections"
  let ?alerts = "map alert_entry (filter raises_alert ?objs)"
  have loop: "objects_loop cvt frm cb_type detections [] [] = Inr (?objs, ?alerts)"
    by (simp add: objects_loop_closed)
  have flags: "\<forall>obj \<in> set ?objs.
      obj_is_problematic_color obj \<longleftrightarrow> obj_color_warning obj \<noteq> None"
    by (auto simp: analyzed_object_warning)
  have entries: "\<forall>a \<in> set ?alerts. \<exists>obj \<in> set ?objs. \<exists>w.
      obj_is_problematic_color obj \<and> obj_color_warning obj = Some w
      \<and> a = obj_label obj @ '': '' @ w"
  proof
    fix a assume "a \<in> set ?alerts"
    then obtain obj where obj: "obj \<in> set ?objs" "raises_alert obj" "a = alert_entry obj"
      by auto
    from obj(1) flags have iff: "obj_is_problematic_color obj \<longleftrightarrow> obj_color_warning obj \<noteq> None"
      by blast
    from obj(2) have prob: "obj_is_problematic_color obj"
      by (simp add: raises_alert_def)
    with iff obtain w where w: "obj_color_warning obj = Some w" by auto
    with obj(3) have "a = obj_label obj @ '': '' @ w"
      by (simp add: alert_entry_def format_warning_def)
    with obj(1) prob w show "\<exists>obj \<in> set ?objs. \<exists>w.
      obj_is_problematic_color obj \<and> obj_color_warning obj = Some w
      \<and> a = obj_label obj @ '': '' @ w"
      by blast
  qed
  have resp: "detect_objects cvt nms detector outputs frm profile min_confidence = Inr response \<longrightarrow>
        (\<forall>obj \<in> set (resp_objects response).
            obj_is_problematic_color obj \<longleftrightarrow> obj_color_warning obj \<noteq> None)"
  proof
    assume "detect_objects cvt nms detector outputs frm profile min_confidence = Inr response"
    from detect_objects_Inr [OF this] obtain t ds where
      "resp_objects response = map (analyzed_object cvt frm t) ds"
      by blast
    then show "\<forall>obj \<in> set (resp_objects response).
            obj_is_problematic_color obj \<longleftrightarrow> obj_color_warning obj \<noteq> None"
      by (auto simp: analyzed_object_warning)
  qed
  from is_problematic_iff_warning [of detected_colors colorblindness_type] loop flags entries resp
  show ?thesis by blast
qed

text \<open>
  One traffic light on a frame of one pure red pixel (HSV (0, 255, 255)) under
  protanopia: the object is problematic, carries its warning, and the alert entry ends
  in that warning.
\<close>

theorem warning_iff_problematic_witness:
  "\<exists>obj critical_alerts.
      objects_loop (\<lambda>p. p) [[(0, 255, 255)]] PROTANOPIA
        [\<lparr>det_label = ''traffic light'', det_confidence = 9 / 10, det_bbox = (0, 0, 1, 1),
          det_priority = ''critical'', det_color_relevant = True\<rparr>] [] []
        = Inr ([obj], critical_alerts)
    \<and> obj_is_problematic_color obj
    \<and> obj_color_warning obj \<noteq> None
    \<and> critical_alerts = [''traffic light: Contains red - may be difficult to see'']"
proof -
  let ?det = "\<lparr>det_label = ''traffic light'', det_confidence = 9 / 10, det_bbox = (0, 0, 1, 1),
          det_priority = ''critical'', det_color_relevant = True\<rparr>"
  let ?obj = "\<lparr>obj_label = ''traffic light'', obj_confidence = 9 / 10,
            obj_bbox = (0, 0, 1, 1), obj_dominant_colors = [''red''],
            obj_is_problematic_color = True,
            obj_color_warning = Some ''Contains red - may be difficult to see'',
            obj_priority = ''critical''\<rparr>"
  have ev: "objects_loop (\<lambda>p. p) [[(0, 255, 255)]] PROTANOPIA [?det] [] []
      = Inr ([?obj], [''traffic light: Contains red - may be difficult to see''])"
    by code_simp
  from warning_iff_problematic [of "[]" NORMAL "\<lambda>p. p" "[[(0, 255, 255)]]" PROTANOPIA "[?det]"]
  obtain objs alerts where
    loop: "objects_loop (\<lambda>p. p) [[(0, 255, 255)]] PROTANOPIA [?det] [] [] = Inr (objs, alerts)"
    and flags: "\<forall>obj \<in> set objs. obj_is_problematic_color obj \<longleftrightarrow> obj_color_warning obj \<noteq> None"
    by blast
  from loop ev have objs: "objs = [?obj]" by simp
  then have mem: "?obj \<in> set objs" by simp
  have prob: "obj_is_problematic_color ?obj" by simp
  from bspec [OF flags mem] prob have "obj_color_warning ?obj \<noteq> None" by blast
  with ev prob show ?thesis by blast
qed

section \<open>Properties of the detection postprocessing\<close>

subsection \<open>The best class of an anchor row\<close>

lemma argmax_loop_Max:
  assumes "best_i < length ps" "ps ! best_i = best" "\<forall>x \<in> set ps. x \<le> best" "i = length ps"
  shows "argmax_loop xs i best_i best < length (ps @ xs)
       \<and> (ps @ xs) ! argmax_loop xs i best_i best = Max (set (ps @ xs))"
  using assms
proof (induction xs arbitrary: ps i best_i best)
  case Nil
  from Nil.prems(1,2) have "best \<in> set ps" by (auto simp: in_set_conv_nth)
  with Nil.prems(3) have "Max (set ps) = best"
    by (intro Max_eqI) auto
  with Nil.prems show ?case by simp
next
  case (Cons x xs)
  show ?case
  proof (cases "best < x")
    case True
    have "argmax_loop xs (Suc i) i x < length ((ps @ [x]) @ xs)
       \<and> ((ps @ [x]) @ xs) ! argmax_loop xs (Suc i) i x = Max (set ((ps @ [x]) @ xs))"
    proof (rule Cons.IH)
      show "i < length (ps @ [x])" using Cons.prems(4) by simp
      show "(ps @ [x]) ! i = x" using Cons.prems(4) by simp
      show "\<forall>y \<in> set (ps @ [x]). y \<le> x" using Cons.prems(3) True by auto
      show "Suc i = length (ps @ [x])" using Cons.prems(4) by simp
    qed
    with True show ?thesis by simp
  next
    case False
    have "argmax_loop xs (Suc i) best_i best < length ((ps @ [x]) @ xs)
       \<and> ((ps @ [x]) @ xs) ! argmax_loop xs (Suc i) best_i best = Max (set ((ps @ [x]) @ xs))"
    proof (rule Cons.IH)
      show "best_i < length (ps @ [x])" using Cons.prems(1) by simp
      show "(ps @ [x]) ! best_i = best" using Cons.prems(1,2) by (simp add: nth_append)
      show "\<forall>y \<in> set (ps @ [x]). y \<le> best" using Cons.prems(3) False by auto
      show "Suc i = length (ps @ [x])" using Cons.prems(4) by simp
    qed
    with False show ?thesis by simp
  qed
qed

lemma argmax_Max:
  assumes "scores \<noteq> []"
  shows "\<exists>class_id. argmax scores = Inr class_id \<and> class_id < length scores
           \<and> scores ! class_id = Max (set scores)"
proof -
  from assms obtain x xs where s: "scores = x # xs" by (cases scores) auto
  have "argmax_loop xs 1 0 x < length ([x] @ xs)
       \<and> ([x] @ xs) ! argmax_loop xs 1 0 x = Max (set ([x] @ xs))"
    by (rule argmax_loop_Max) simp_all
  then show ?thesis by (simp add: argmax_def s)
qed

subsection \<open>Rows at or below the confidence threshold\<close>

lemma anchors_loop_skip:
  assumes "5 < length row" "\<not> confidence_threshold < Max (set (drop 5 row))"
  shows "anchors_loop width height confidence_threshold (row # rest) boxes confidences class_ids
       = anchors_loop width height confidence_threshold rest boxes confidences class_ids"
proof -
  from assms(1) have "drop 5 row \<noteq> []" by simp
  from argmax_Max [OF this] obtain class_id where
    "argmax (drop 5 row) = Inr class_id" "drop 5 row ! class_id = Max (set (drop 5 row))"
    by blast
  with assms(2) show ?thesis by (simp add: Let_def)
qed

lemma anchors_loop_keep:
  assumes "5 < length row" "confidence_threshold < Max (set (drop 5 row))"
  shows "\<exists>box class_id. \<forall>rest boxes confidences class_ids.
      anchors_loop width height confidence_threshold (row # rest) boxes confidences class_ids
       = anchors_loop width height confidence_threshold rest
           (boxes @ [box]) (confidences @ [Max (set (drop 5 row))]) (class_ids @ [class_id])"
proof -
  from assms(1) have "drop 5 row \<noteq> []" by simp
  from argmax_Max [OF this] obtain class_id where
    c: "argmax (drop 5 row) = Inr class_id" "drop 5 row ! class_id = Max (set (drop 5 row))"
    by blast
  let ?w = "py_int (row ! 2 * of_int width)"
  let ?h = "py_int (row ! 3 * of_int height)"
  let ?box = "(py_int (of_int (py_int (row ! 0 * of_int width)) - of_int ?w / 2),
              py_int (of_int (py_int (row ! 1 * of_int height)) - of_int ?h / 2), ?w, ?h)"
  have "\<forall>rest boxes confidences class_ids.
      anchors_loop width height confidence_threshold (row # rest) boxes confidences class_ids
       = anchors_loop width height confidence_threshold rest
           (boxes @ [?box]) (confidences @ [Max (set (drop 5 row))]) (class_ids @ [class_id])"
    using c assms(2) by (simp add: Let_def)
  then show ?thesis by blast
qed

lemma anchors_loop_filter:
  assumes "\<forall>row \<in> set rows. 5 < length row"
  shows "anchors_loop width height confidence_threshold
           (filter (\<lambda>row. confidence_threshold < Max (set (drop 5 row))) rows)
           boxes confidences class_ids
       = anchors_loop width height confidence_threshold rows boxes confidences class_ids"
  using assms
proof (induction rows arbitrary: boxes confidences class_ids)
  case Nil
  show ?case by simp
next
  case (Cons row rows)
  from Cons.prems have len: "5 < length row" and rest: "\<forall>row \<in> set rows. 5 < length row"
    by simp_all
  show ?case
  proof (cases "confidence_threshold < Max (set (drop 5 row))")
    case False
    with anchors_loop_skip [OF len False] Cons.IH [OF rest] show ?thesis by simp
  next
    case True
    from anchors_loop_keep [OF len True, of width height]
    obtain box class_id where step:
      "\<And>rest boxes confidences class_ids.
       anchors_loop width height confidence_threshold (row # rest) boxes confidences class_ids
       = anchors_loop width height confidence_threshold rest
           (boxes @ [box]) (confidences @ [Max (set (drop 5 row))]) (class_ids @ [class_id])"
      by blast
    show ?thesis
      using True Cons.IH [OF rest] by (simp add: step del: anchors_loop.simps)
  qed
qed

lemma anchors_loop_confidences:
  assumes "\<forall>row \<in> set rows. 5 < length row"
    and "anchors_loop width height confidence_threshold rows boxes confidences class_ids
           = Inr (boxes', confidences', class_ids')"
    and "\<forall>c \<in> set confidences. confidence_threshold < c"
  shows "\<forall>c \<in> set confidences'. confidence_threshold < c"
  using assms
proof (induction rows arbitrary: boxes confidences class_ids)
  case Nil
  then show ?case by simp
next
  case (Cons row rows)
  from Cons.prems(1) have len: "5 < length row" and rest: "\<forall>row \<in> set rows. 5 < length row"
    by simp_all
  show ?case
  proof (cases "confidence_threshold < Max (set (drop 5 row))")
    case False
    from Cons.prems(2) have "anchors_loop width height confidence_threshold rows boxes
        confidences class_ids = Inr (boxes', confidences', class_ids')"
      unfolding anchors_loop_skip [OF len False] .
    from Cons.IH [OF rest this Cons.prems(3)] show ?thesis .
  next
    case True
    from anchors_loop_keep [OF len True, of width height]
    obtain box class_id where step:
      "\<And>rest boxes confidences class_ids.
       anchors_loop width height confidence_threshold (row # rest) boxes confidences class_ids
       = anchors_loop width height confidence_threshold rest
           (boxes @ [box]) (confidences @ [Max (set (drop 5 row))]) (class_ids @ [class_id])"
      by blast
    from Cons.prems(2) have run: "anchors_loop width height confidence_threshold rows
        (boxes @ [box]) (confidences @ [Max (set (drop 5 row))]) (class_ids @ [class_id])
        = Inr (boxes', confidences', class_ids')"
      unfolding step .
    from Cons.prems(3) True
    have "\<forall>c \<in> set (confidences @ [Max (set (drop 5 row))]). confidence_threshold < c"
      by simp
    from Cons.IH [OF rest run this] show ?thesis .
  qed
qed

lemma detections_loop_confidences:
  assumes "detections_loop width height boxes confidences class_ids indices detections
             = Inr detections'"
    and "\<forall>d \<in> set detections. confidence_threshold < det_confidence d"
    and "\<forall>c \<in> set confidences. confidence_threshold < c"
  shows "\<forall>d \<in> set detections'. confidence_threshold < det_confidence d"
  using assms
proof (induction indices arbitrary: detections)
  case Nil
  then show ?case by simp
next
  case (Cons idx indices)
  from Cons.prems(1) have ok: "idx < length confidences"
    by (simp split: if_splits)
  with Cons.prems(3) have c: "confidence_threshold < confidences ! idx" by simp
  from Cons.prems(1) obtain d where
    run: "detections_loop width height boxes confidences class_ids indices (detections @ [d])
        = Inr detections'"
    and d: "det_confidence d = confidences ! idx"
    by (auto simp: Let_def case_prod_unfold split: if_splits)
  from Cons.prems(2) c d
  have "\<forall>d \<in> set (detections @ [d]). confidence_threshold < det_confidence d"
    by simp
  from Cons.IH [OF run this Cons.prems(3)] show ?case .
qed

text \<open>
  C8: take any raw output whose rows each carry at least one class score. An anchor
  row whose greatest class score is at most the confidence threshold contributes
  nothing: removing all such rows leaves the result of \<open>detect\<close> unchanged, errors
  included, whatever the suppression step keeps; and every detection returned has a
  confidence strictly above the threshold.
\<close>

theorem low_score_rows_do_not_contribute:
  assumes "\<forall>row \<in> set (concat outputs). 5 < length row"
  shows "detect loaded nms width height
           (map (filter (\<lambda>row. confidence_threshold < Max (set (drop 5 row)))) outputs)
           confidence_threshold
         = detect loaded nms width height outputs confidence_threshold
       \<and> (\<forall>detections.
            detect loaded nms width height outputs confidence_threshold = Inr detections \<longrightarrow>
            (\<forall>d \<in> set detections. confidence_threshold < det_confidence d))"
proof -
  let ?above = "\<lambda>row. confidence_threshold < Max (set (drop 5 row))"
  have "concat (map (filter ?above) outputs) = filter ?above (concat outputs)"
    by (simp add: filter_concat)
  then have same: "anchors_loop width height confidence_threshold
        (concat (map (filter ?above) outputs)) [] [] []
      = anchors_loop width height confidence_threshold (concat outputs) [] [] []"
    using anchors_loop_filter [OF assms] by simp
  have eq: "detect loaded nms width height (map (filter ?above) outputs) confidence_threshold
         = detect loaded nms width height outputs confidence_threshold"
    unfolding detect_def same ..
  have "\<forall>d \<in> set detections. confidence_threshold < det_confidence d"
    if run: "detect loaded nms width height outputs confidence_threshold = Inr detections"
    for detections
  proof (cases loaded)
    case False
    with run show ?thesis by (simp add: detect_def)
  next
    case True
    with run obtain boxes confidences class_ids where
      a: "anchors_loop width height confidence_threshold (concat outputs) [] [] []
            = Inr (boxes, confidences, class_ids)"
      by (cases "anchors_loop width height confidence_threshold (concat outputs) [] [] []")
         (auto simp: detect_def)
    from run True a obtain unsorted where
      d: "detections_loop width height boxes confidences class_ids
            (nms boxes confidences confidence_threshold (2 / 5)) [] = Inr unsorted"
      and s: "detections = sort_key (\<lambda>d. priority_order (det_priority d)) unsorted"
      by (cases "detections_loop width height boxes confidences class_ids
            (nms boxes confidences confidence_threshold (2 / 5)) []")
         (auto simp: detect_def Let_def)
    from anchors_loop_confidences [OF assms a]
    have "\<forall>c \<in> set confidences. confidence_threshold < c" by simp
    from detections_loop_confidences [OF d _ this]
    have "\<forall>d \<in> set unsorted. confidence_threshold < det_confidence d" by simp
    with s show ?thesis by simp
  qed
  with eq show ?thesis by blast
qed

text \<open>
  Two rows on a frame of one pixel, every box kept by the suppression step: the first
  row scores 0.9 for class 9, the second has objectness 1 and no class score above the
  threshold 0.5 (its greatest is exactly 0.5). Only the first row is detected.
\<close>

theorem low_score_rows_do_not_contribute_witness:
  "detect True (\<lambda>boxes confidences t n. [0..<length boxes]) 1 1 [[[1 / 2, 1 / 2, 1, 1, 1, 0, 0, 0, 0, 0, 0, 0, 0, 0, 9 / 10]]] (1 / 2)
     = detect True (\<lambda>boxes confidences t n. [0..<length boxes]) 1 1 [[[1 / 2, 1 / 2, 1, 1, 1, 0, 0, 0, 0, 0, 0, 0, 0, 0, 9 / 10],
         [1 / 2, 1 / 2, 1, 1, 1, 3 / 10, 1 / 2, 0, 0, 0, 0, 0, 0, 0, 2 / 5]]] (1 / 2)
   \<and> detect True (\<lambda>boxes confidences t n. [0..<length boxes]) 1 1 [[[1 / 2, 1 / 2, 1, 1, 1, 0, 0, 0, 0, 0, 0, 0, 0, 0, 9 / 10],
         [1 / 2, 1 / 2, 1, 1, 1, 3 / 10, 1 / 2, 0, 0, 0, 0, 0, 0, 0, 2 / 5]]] (1 / 2)
     = Inr [\<lparr>det_label = ''traffic light'', det_confidence = 9 / 10, det_bbox = (0, 0, 1, 1),
          det_priority = ''critical'', det_color_relevant = True\<rparr>]
   \<and> (1 / 2 :: rat) < det_confidence \<lparr>det_label = ''traffic light'', det_confidence = 9 / 10, det_bbox = (0, 0, 1, 1),
          det_priority = ''critical'', det_color_relevant = True\<rparr>"
proof -
  let ?nms = "\<lambda>(boxes :: box list) (confidences :: rat list) (t :: rat) (n :: rat).
                [0..<length boxes]"
  let ?hi = "[1 / 2, 1 / 2, 1, 1, 1, 0, 0, 0, 0, 0, 0, 0, 0, 0, 9 / 10] :: rat list"
  let ?lo = "[1 / 2, 1 / 2, 1, 1, 1, 3 / 10, 1 / 2, 0, 0, 0, 0, 0, 0, 0, 2 / 5] :: rat list"
  let ?det = "\<lparr>det_label = ''traffic light'', det_confidence = 9 / 10, det_bbox = (0, 0, 1, 1),
          det_priority = ''critical'', det_color_relevant = True\<rparr>"
  have rows: "\<forall>row \<in> set (concat [[?hi, ?lo]]). 5 < length row"
    by simp
  have kept: "map (filter (\<lambda>row. 1 / 2 < Max (set (drop 5 row)))) [[?hi, ?lo]] = [[?hi]]"
    by code_simp
  have ev: "detect True ?nms 1 1 [[?hi, ?lo]] (1 / 2) = Inr [?det]"
    by code_simp
  from low_score_rows_do_not_contribute [OF rows, of True ?nms 1 1 "1 / 2"]
  have same: "detect True ?nms 1 1 [[?hi]] (1 / 2) = detect True ?nms 1 1 [[?hi, ?lo]] (1 / 2)"
    and above: "\<forall>d \<in> set [?det]. 1 / 2 < det_confidence d"
    unfolding kept using ev by blast+
  from above have "(1 / 2 :: rat) < det_confidence ?det" by simp
  with same ev show ?thesis by blast
qed

section \<open>Properties of the dominant colours\<close>

lemma set_first_occurrences: "set (first_occurrences xs) = set xs"
  by (induction xs rule: first_occurrences.induct) auto

lemma distinct_first_occurrences: "distinct (first_occurrences xs)"
  by (induction xs rule: first_occurrences.induct) (auto simp: set_first_occurrences)

lemma dominant_loop_closed:
  assumes "int (length dominant) < top_n" "distinct dominant"
  shows "dominant_loop top_n sorted_colors (set dominant) dominant =
     take (nat top_n)
       (dominant @
        first_occurrences
          (filter (\<lambda>d. d \<notin> set dominant) (map (\<lambda>x. display_name_of (fst x)) sorted_colors)))"
  using assms
proof (induction sorted_colors arbitrary: dominant)
  case Nil
  then show ?case by simp
next
  case (Cons entry rest)
  obtain color_name percentage where e: "entry = (color_name, percentage)"
    by (cases entry) auto
  let ?d = "display_name_of color_name"
  show ?case
  proof (cases "?d \<in> set dominant")
    case True
    with Cons.prems Cons.IH [OF Cons.prems] show ?thesis
      by (simp add: e Let_def)
  next
    case False
    let ?dominant = "dominant @ [?d]"
    have f: "filter (\<lambda>y. y \<noteq> ?d) (filter (\<lambda>d. d \<notin> set dominant) names)
           = filter (\<lambda>d. d \<notin> set ?dominant) names" for names
      by (induction names) auto
    show ?thesis
    proof (cases "top_n \<le> int (length ?dominant)")
      case True
      with Cons.prems have "nat top_n = length ?dominant" by simp
      with False True show ?thesis
        by (simp add: e Let_def)
    next
      case stop: False
      then have lt: "int (length ?dominant) < top_n" by simp
      from False Cons.prems have dist: "distinct ?dominant" by simp
      have "dominant_loop top_n (entry # rest) (set dominant) dominant
          = dominant_loop top_n rest (set ?dominant) ?dominant"
        using False stop by (simp add: e Let_def)
      also have "\<dots> = take (nat top_n)
         (?dominant @ first_occurrences
            (filter (\<lambda>d. d \<notin> set ?dominant) (map (\<lambda>x. display_name_of (fst x)) rest)))"
        by (rule Cons.IH [OF lt dist])
      also have "\<dots> = take (nat top_n)
         (dominant @ first_occurrences
            (filter (\<lambda>d. d \<notin> set dominant)
               (map (\<lambda>x. display_name_of (fst x)) (entry # rest))))"
      proof -
        have "filter (\<lambda>d. d \<notin> set dominant)
                (map (\<lambda>x. display_name_of (fst x)) (entry # rest))
            = ?d # filter (\<lambda>d. d \<notin> set dominant) (map (\<lambda>x. display_name_of (fst x)) rest)"
          using False by (simp add: e)
        then have "first_occurrences (filter (\<lambda>d. d \<notin> set dominant)
                (map (\<lambda>x. display_name_of (fst x)) (entry # rest)))
            = ?d # first_occurrences (filter (\<lambda>d. d \<notin> set ?dominant)
                (map (\<lambda>x. display_name_of (fst x)) rest))"
          by (simp only: first_occurrences.simps f)
        then show ?thesis by simp
      qed
      finally show ?thesis .
    qed
  qed
qed

text \<open>
  For \<open>top_n\<close> from one on, the dominant colours are the first \<open>top_n\<close> display names of
  the breakdown sorted by descending percentage (entries of equal percentage in the
  breakdown's, that is the catalog's, order), each name at its first occurrence only.
\<close>

lemma get_dominant_colors_closed:
  assumes "1 \<le> top_n"
  shows "\<exists>color_percentages dominant.
      detect_colors cvt roi = Inr color_percentages
    \<and> get_dominant_colors cvt roi top_n = Inr dominant
    \<and> dominant = take (nat top_n)
        (first_occurrences
           (map (\<lambda>x. display_name_of (fst x))
              (sort_key (\<lambda>x. - snd x) color_percentages)))
    \<and> int (length dominant) \<le> top_n
    \<and> distinct dominant"
proof -
  let ?cp = "retained_buckets (map cvt roi) COLOR_RANGES"
  let ?names = "first_occurrences
           (map (\<lambda>x. display_name_of (fst x)) (sort_key (\<lambda>x. - snd x) ?cp))"
  from assms have "int (length ([] :: string list)) < top_n" by simp
  from dominant_loop_closed [OF this, of "sorted_colors_of ?cp"]
  have "dominant_loop top_n (sorted_colors_of ?cp) {} [] = take (nat top_n) ?names"
    by (simp add: sorted_colors_of_def)
  then have "get_dominant_colors cvt roi top_n = Inr (take (nat top_n) ?names)"
    by (simp add: get_dominant_colors_def detect_colors_closed)
  moreover have "distinct (take (nat top_n) ?names)"
    by (simp add: distinct_first_occurrences)
  moreover from assms have "int (length (take (nat top_n) ?names)) \<le> top_n"
    by simp
  moreover have "detect_colors cvt roi = Inr ?cp"
    by (rule detect_colors_closed)
  ultimately show ?thesis by blast
qed

lemma sorted_rev_of_negated: "sorted (map uminus ys) \<Longrightarrow> sorted (rev ys)"
  for ys :: "rat list"
  by (induction ys) (auto simp: sorted_append)

lemma sorted_colors_of_descending:
  "sorted (rev (map snd (sorted_colors_of color_percentages)))"
proof -
  have "sorted (map (\<lambda>x. - snd x) (sorted_colors_of color_percentages))"
    by (simp add: sorted_colors_of_def)
  then have "sorted (map uminus (map snd (sorted_colors_of color_percentages)))"
    by (simp add: comp_def)
  then show ?thesis by (rule sorted_rev_of_negated)
qed

lemma sorted_colors_of_stable:
  "filter (\<lambda>x. snd x = p) (sorted_colors_of color_percentages)
     = filter (\<lambda>x. snd x = p) color_percentages"
  using sort_key_stable [of "\<lambda>x. - snd x" "- p" color_percentages]
  by (simp add: sorted_colors_of_def)

text \<open>With \<open>top_n\<close> at most zero the loop still appends one name before its test.\<close>

lemma get_dominant_colors_nonpositive:
  assumes "top_n \<le> 0" "detect_colors cvt roi = Inr color_percentages" "color_percentages \<noteq> []"
  shows "\<exists>d. get_dominant_colors cvt roi top_n = Inr [d]"
proof -
  from assms(3) have "sorted_colors_of color_percentages \<noteq> []"
    by (auto simp: sorted_colors_of_def dest: arg_cong [where f = length])
  then obtain e rest where s: "sorted_colors_of color_percentages = e # rest"
    by (cases "sorted_colors_of color_percentages") auto
  obtain color_name percentage where e: "e = (color_name, percentage)" by (cases e) auto
  from assms(1) have "dominant_loop top_n (e # rest) {} [] = [display_name_of color_name]"
    by (simp add: e Let_def)
  with assms(2) s show ?thesis by (simp add: get_dominant_colors_def)
qed

text \<open>
  C5 fails on the code where \<open>top_n\<close> is zero: for the region of one white pixel (BGR
  (255, 255, 255), HSV (0, 0, 255)) \<open>get_dominant_colors(roi, 0)\<close> returns the one
  name "white", which is more than \<open>top_n\<close> names.
\<close>

theorem get_dominant_colors_top_n_zero:
  "get_dominant_colors (\<lambda>p. p) [(0, 0, 255)] 0 = Inr [''white'']
   \<and> \<not> int (length [''white'']) \<le> 0"
proof -
  have "get_dominant_colors (\<lambda>p. p) [(0, 0, 255)] 0 = Inr [''white'']"
    by code_simp
  then show ?thesis by simp
qed

end
